theory Spec2Isabelle
  imports Complex_Main "HOL-Library.Word"
begin

unbundle bit_operations_syntax

section \<open>The R-Auth token codec of \<open>getRAuthToken.ts\<close>\<close>

text \<open>
  The development embeds the function \<open>getRAuthToken\<close> of
  \<open>src/services/api/auth/utils/getRAuthToken.ts\<close>. Each \<open>const\<close>/\<open>let\<close> of the
  source is one definition below, under the source's name.
\<close>

subsection \<open>JavaScript values\<close>

text \<open>
  A JavaScript string is a sequence of UTF-16 code units. A \<open>Uint8Array\<close> is a list of
  bytes. The operands of the bitwise operators \<open><<\<close>, \<open>>>\<close>, \<open>^\<close> and \<open>&\<close> are 32-bit
  integers (\<open>sint\<close> reads the signed value).
\<close>

type_synonym jsstring = "16 word list"
type_synonym uint8 = "8 word"
type_synonym int32 = "32 word"

text \<open>
  The Numbers this function handles are \<open>NaN\<close> and the two infinities (from \<open>parseInt\<close>)
  and the doubles whose value is an integer: \<open>Num n\<close> is the finite double of value \<open>n\<close>.
  The zeros \<open>+0\<close> and \<open>-0\<close> are both \<open>Num 0\<close>: \<open>ToInt32\<close> and the template literal do
  not tell them apart.
\<close>

datatype number = NaN | Num int | PosInfinity | NegInfinity

text \<open>Every integer up to \<open>2 ^ 53\<close> in magnitude is a double.\<close>

definition safe_integer :: "int \<Rightarrow> bool" where
  "safe_integer n = (\<bar>n\<bar> \<le> 2 ^ 53)"

text \<open>
  The Number of an integer: the nearest double, a tie going to the even significand of 53
  bits; from \<open>2 ^ 1024 - 2 ^ 970\<close> on the result is an infinity.
\<close>

function bit_length :: "int \<Rightarrow> nat" where
  "bit_length a = (if a \<le> 0 then 0 else Suc (bit_length (a div 2)))"
  by pat_completeness auto
termination
  by (relation "measure nat") auto

declare bit_length.simps [simp del]

definition double_of_int :: "int \<Rightarrow> number" where
  "double_of_int m =
     (if \<bar>m\<bar> \<le> 2 ^ 53 then Num m
      else
        (let a = \<bar>m\<bar>;
             e = bit_length a - 53;
             q = a div 2 ^ e;
             r = a mod 2 ^ e;
             h = 2 ^ (e - 1);
             q' = (if h < r \<or> (r = h \<and> odd q) then q + 1 else q);
             v = q' * 2 ^ e
         in if 2 ^ 1024 \<le> v then (if m < 0 then NegInfinity else PosInfinity)
            else Num (if m < 0 then - v else v)))"

text \<open>
  ECMAScript \<open>ToInt32\<close>: \<open>NaN\<close> and the infinities become 0, an integer is reduced modulo
  \<open>2 ^ 32\<close>.
\<close>

definition ToInt32 :: "number \<Rightarrow> int32" where
  "ToInt32 x =
     (case x of NaN \<Rightarrow> 0 | Num n \<Rightarrow> word_of_int n | PosInfinity \<Rightarrow> 0 | NegInfinity \<Rightarrow> 0)"

text \<open>A string literal of the source, as code units.\<close>

definition js :: "string \<Rightarrow> jsstring" where
  "js s = map of_char s"

subsection \<open>The first four bytes (lines 73 to 95)\<close>

text \<open>
  \<open>random = (random << 21) ^ (random << 19) ^ random\<close>: every operand goes through
  \<open>ToInt32\<close>, the shifts and the xor stay in 32 bits.
\<close>

definition random_mix :: "number \<Rightarrow> int32" where
  "random_mix t = push_bit 21 (ToInt32 t) XOR push_bit 19 (ToInt32 t) XOR ToInt32 t"

text \<open>
  \<open>random = random * 251 + 19\<close> is arithmetic on Numbers, not on 32-bit integers: the
  result is the exact integer (below \<open>2 ^ 40\<close> in magnitude, so the double is exact).
\<close>

definition random_muladd :: "int32 \<Rightarrow> number" where
  "random_muladd r = Num (sint r * 251 + 19)"

definition random :: "number \<Rightarrow> number" where
  "random t = random_muladd (random_mix t)"

text \<open>
  \<open>(random >> 24) & 0xff\<close> and the three lines after it: \<open>>>\<close> is the sign-propagating
  shift of \<open>ToInt32 random\<close>.
\<close>

definition b0 :: "number \<Rightarrow> int32" where
  "b0 r = signed_drop_bit 24 (ToInt32 r) AND 0xff"

definition b1 :: "number \<Rightarrow> int32" where
  "b1 r = signed_drop_bit 16 (ToInt32 r) AND 0xff"

definition b2 :: "number \<Rightarrow> int32" where
  "b2 r = signed_drop_bit 8 (ToInt32 r) AND 0xff"

definition b3 :: "number \<Rightarrow> int32" where
  "b3 r = ToInt32 r AND 0xff"

text \<open>
  \<open>tmp = b0; b0 = b0 ^ b1; b1 = b1 ^ b2; b2 = b2 ^ b3; b3 = b3 ^ tmp\<close>, then
  \<open>new Uint8Array([b0, b1, b2, b3])\<close>, which keeps the low 8 bits of each element.
\<close>

definition initialBytes :: "number \<Rightarrow> uint8 list" where
  "initialBytes t =
     (let r = random t;
          tmp = b0 r;
          b0' = b0 r XOR b1 r;
          b1' = b1 r XOR b2 r;
          b2' = b2 r XOR b3 r;
          b3' = b3 r XOR tmp
      in map ucast [b0', b1', b2', b3'])"

subsection \<open>Resolving the inputs (lines 50 to 67)\<close>

text \<open>
  \<open>getClientDataFromCookies\<close> lives in \<open>./helpers\<close>; the value its promise resolves to
  is a parameter here: \<open>None\<close> for \<open>null\<close>/\<open>undefined\<close>, else the three properties the
  function destructures, each a string or \<open>undefined\<close>.
\<close>

record clientData =
  fingerprint :: "jsstring option"
  clientDeviceModel :: "jsstring option"
  clientOs :: "jsstring option"

text \<open>
  What the function reads besides its parameters: the cookie data,
  \<open>process.env.NODE_ENV\<close> and \<open>Date.now()\<close> (milliseconds).
\<close>

record env =
  cookies :: "clientData option"
  NODE_ENV :: "jsstring option"
  Date_now :: int

text \<open>\<open>clientData ?? {}\<close> followed by the destructuring.\<close>

definition destructure :: "clientData option \<Rightarrow> clientData" where
  "destructure c =
     (case c of
        None \<Rightarrow> \<lparr>fingerprint = None, clientDeviceModel = None, clientOs = None\<rparr>
      | Some d \<Rightarrow> d)"

text \<open>
  An optional string is truthy when it is defined and not empty; \<open>a || b\<close> is \<open>a\<close>
  when \<open>a\<close> is truthy and \<open>b\<close> otherwise; a template literal prints \<open>undefined\<close> as
  the word.
\<close>

definition truthy :: "jsstring option \<Rightarrow> bool" where
  "truthy a = (case a of None \<Rightarrow> False | Some s \<Rightarrow> s \<noteq> [])"

definition or_else :: "jsstring option \<Rightarrow> jsstring option \<Rightarrow> jsstring option" where
  "or_else a b = (if truthy a then a else b)"

definition template :: "jsstring option \<Rightarrow> jsstring" where
  "template a = (case a of None \<Rightarrow> js ''undefined'' | Some s \<Rightarrow> s)"

definition finalDeviceIdentifier :: "clientData option \<Rightarrow> jsstring option \<Rightarrow> jsstring" where
  "finalDeviceIdentifier c deviceIdentifier =
     js ''web-fingerprint-'' @
     template (if truthy (fingerprint (destructure c)) then fingerprint (destructure c)
               else or_else deviceIdentifier (Some (js ''fb9cd3a645fe5jim'')))"

definition finalSn :: "jsstring option \<Rightarrow> jsstring" where
  "finalSn sn = template (or_else sn (Some (js ''sn-85845426'')))"

definition finalDeviceModel :: "clientData option \<Rightarrow> jsstring option \<Rightarrow> jsstring" where
  "finalDeviceModel c deviceModel =
     template (or_else (or_else (clientDeviceModel (destructure c)) deviceModel)
                       (Some (js ''device_model-65656565'')))"

definition finalOs :: "clientData option \<Rightarrow> jsstring option \<Rightarrow> jsstring" where
  "finalOs c os = template (or_else (or_else (clientOs (destructure c)) os) (Some (js ''windows'')))"

subsection \<open>\<open>parseInt(timestamp, 10)\<close> and the timestamp (line 65)\<close>

text \<open>
  ECMAScript \<open>parseInt\<close> with radix 10: leading white space is dropped, one sign is
  read, then the longest run of decimal digits; no digit at all gives \<open>NaN\<close>. What
  follows the digits is ignored. The result is the Number of the signed integer the
  digits write: rounded to a double above \<open>2 ^ 53\<close>, an infinity for a very long run.
  (Past twenty significant digits the language lets an engine replace the later digits
  by zeros before it rounds; the correctly rounded value is the one taken here.)
\<close>

definition is_whitespace :: "16 word \<Rightarrow> bool" where
  "is_whitespace c =
     (c \<in> set [0x9, 0xA, 0xB, 0xC, 0xD, 0x20, 0xA0, 0x1680, 0x2028, 0x2029, 0x202F, 0x205F,
                0x3000, 0xFEFF] \<or> (0x2000 \<le> c \<and> c \<le> 0x200A))"

definition is_digit :: "16 word \<Rightarrow> bool" where
  "is_digit c = (0x30 \<le> c \<and> c \<le> 0x39)"

definition digit_value :: "16 word \<Rightarrow> int" where
  "digit_value c = uint c - 0x30"

definition parseInt10 :: "jsstring \<Rightarrow> number" where
  "parseInt10 inputString =
     (let S = dropWhile is_whitespace inputString;
          sign = (if S \<noteq> [] \<and> hd S = 0x2D then - 1 else 1);
          S' = (if S \<noteq> [] \<and> (hd S = 0x2B \<or> hd S = 0x2D) then tl S else S);
          Z = takeWhile is_digit S'
      in if Z = [] then NaN
         else double_of_int (sign * foldl (\<lambda>a c. a * 10 + digit_value c) 0 Z))"

text \<open>
  \<open>timestamp ? parseInt(timestamp, 10) : Math.floor(Date.now() / 1000)\<close>: the test is
  the truthiness of the string, not the success of the parse. \<open>Date.now()\<close> is an integer
  of milliseconds, at most \<open>8.64 * 10 ^ 15\<close> in magnitude, so the floor of its
  thousandth is the integer quotient and a double.
\<close>

definition finalTimestamp :: "int \<Rightarrow> jsstring option \<Rightarrow> number" where
  "finalTimestamp now timestamp =
     (case timestamp of
        None \<Rightarrow> Num (now div 1000)
      | Some s \<Rightarrow> (if s \<noteq> [] then parseInt10 s else Num (now div 1000)))"

subsection \<open>The data string and the combined buffer (lines 98 to 105)\<close>

text \<open>
  The template literal's \<open>${finalTimestamp}\<close> is \<open>Number::toString\<close>. For a positive \<open>x\<close>
  it takes the integers \<open>s\<close>, \<open>k\<close>, \<open>n\<close> with \<open>k\<close> digits in \<open>s\<close>, with
  \<open>s * 10 ^ (n - k)\<close> a number whose double is \<open>x\<close> and with \<open>k\<close> as small as can be (the
  \<open>s\<close> nearest to \<open>x\<close>, the even one on a tie); it prints the digits of \<open>s\<close> and \<open>n - k\<close>
  zeros when \<open>n \<le> 21\<close>, and the exponent notation otherwise. An integer up to \<open>2 ^ 53\<close>
  is a double and so are its neighbours, so its digits are its own decimal digits. Above
  \<open>2 ^ 53\<close> the search below finds \<open>s\<close>: with \<open>d\<close> the number of digits of \<open>x\<close>, the
  multiples of \<open>10 ^ (d - k)\<close> on both sides of \<open>x\<close>, and \<open>10 ^ d\<close>, are the only numbers
  of \<open>k\<close> digits that can be nearest; 17 digits always suffice for a double, so the
  search ends with a result (for an integer that is no double, which no Number holds, the
  digits are its own).
\<close>

function digits :: "int \<Rightarrow> jsstring" where
  "digits n =
     (if n < 10 then [0x30 + word_of_int n]
      else digits (n div 10) @ [0x30 + word_of_int (n mod 10)])"
  by pat_completeness auto
termination
  by (relation "measure nat") auto

declare digits.simps [simp del]

definition candidates :: "int \<Rightarrow> nat \<Rightarrow> nat \<Rightarrow> (int \<times> nat) list" where
  "candidates x d k =
     (let s0 = x div 10 ^ (d - k)
      in filter (\<lambda>(s, n). double_of_int (s * 10 ^ (n - k)) = Num x)
           ([(s0, d)] @ (if s0 + 1 < 10 ^ k then [(s0 + 1, d)] else []) @
            (if k = 1 then [(1, d + 1)] else [])))"

definition distance :: "int \<Rightarrow> nat \<Rightarrow> int \<times> nat \<Rightarrow> int" where
  "distance x k c = \<bar>fst c * 10 ^ (snd c - k) - x\<bar>"

fun closest :: "int \<Rightarrow> nat \<Rightarrow> (int \<times> nat) list \<Rightarrow> (int \<times> nat) option" where
  "closest x k [] = None"
| "closest x k (c # cs) =
     (case closest x k cs of
        None \<Rightarrow> Some c
      | Some c' \<Rightarrow>
          (if distance x k c < distance x k c' \<or>
              (distance x k c = distance x k c' \<and> even (fst c))
           then Some c else Some c'))"

fun shortest :: "int \<Rightarrow> nat \<Rightarrow> nat list \<Rightarrow> (int \<times> nat \<times> nat) option" where
  "shortest x d [] = None"
| "shortest x d (k # ks) =
     (case closest x k (candidates x d k) of
        None \<Rightarrow> shortest x d ks
      | Some (s, n) \<Rightarrow> Some (s, n, k))"

definition to_string_pos :: "int \<Rightarrow> jsstring" where
  "to_string_pos x =
     (if x \<le> 2 ^ 53 then digits x
      else
        (case shortest x (length (digits x)) [1, 2, 3, 4, 5, 6, 7, 8, 9, 10, 11, 12, 13, 14, 15, 16, 17] of
           None \<Rightarrow> digits x
         | Some (s, n, k) \<Rightarrow>
             (if n \<le> 21 then digits s @ replicate (n - k) 0x30
              else if k = 1 then digits s @ js ''e+'' @ digits (int (n - 1))
              else hd (digits s) # 0x2E # tl (digits s) @ js ''e+'' @ digits (int (n - 1)))))"

definition number_to_string :: "number \<Rightarrow> jsstring" where
  "number_to_string x =
     (case x of
        NaN \<Rightarrow> js ''NaN''
      | Num n \<Rightarrow> (if n < 0 then 0x2D # to_string_pos (- n) else to_string_pos n)
      | PosInfinity \<Rightarrow> js ''Infinity''
      | NegInfinity \<Rightarrow> js ''-Infinity'')"

definition development :: "jsstring option \<Rightarrow> bool" where
  "development node_env = (node_env = Some (js ''development''))"

definition dataString ::
  "jsstring \<Rightarrow> jsstring \<Rightarrow> number \<Rightarrow> jsstring \<Rightarrow> jsstring \<Rightarrow> bool \<Rightarrow> jsstring" where
  "dataString devId sn ts model os dev =
     devId @ js ''|'' @ sn @ js ''|'' @ number_to_string ts @ js ''|'' @ model @ js ''|'' @ os
       @ js ''|Web|3|'' @ (if dev then js ''true'' else js ''false'')"

text \<open>
  \<open>new TextEncoder().encode\<close>: UTF-8 of the code units; a surrogate pair is one code
  point of four bytes, a lone surrogate is replaced by U+FFFD.
\<close>

definition is_high :: "16 word \<Rightarrow> bool" where
  "is_high c = (0xD800 \<le> c \<and> c < 0xDC00)"

definition is_low :: "16 word \<Rightarrow> bool" where
  "is_low c = (0xDC00 \<le> c \<and> c < 0xE000)"

definition utf8_1 :: "16 word \<Rightarrow> uint8 list" where
  "utf8_1 c = [ucast c]"

definition utf8_2 :: "16 word \<Rightarrow> uint8 list" where
  "utf8_2 c = [0xC0 OR ucast (drop_bit 6 c), 0x80 OR ucast (c AND 0x3F)]"

definition utf8_3 :: "16 word \<Rightarrow> uint8 list" where
  "utf8_3 c =
     [0xE0 OR ucast (drop_bit 12 c), 0x80 OR ucast (drop_bit 6 c AND 0x3F), 0x80 OR ucast (c AND 0x3F)]"

definition utf8_4 :: "16 word \<Rightarrow> 16 word \<Rightarrow> uint8 list" where
  "utf8_4 h l =
     (let cp = (0x10000 + push_bit 10 (ucast (h - 0xD800)) + ucast (l - 0xDC00) :: 32 word)
      in [0xF0 OR ucast (drop_bit 18 cp), 0x80 OR ucast (drop_bit 12 cp AND 0x3F),
          0x80 OR ucast (drop_bit 6 cp AND 0x3F), 0x80 OR ucast (cp AND 0x3F)])"

fun TextEncoder_encode :: "jsstring \<Rightarrow> uint8 list" where
  "TextEncoder_encode [] = []"
| "TextEncoder_encode [c] =
     (if c < 0x80 then utf8_1 c
      else if c < 0x800 then utf8_2 c
      else if is_high c \<or> is_low c then [0xEF, 0xBF, 0xBD]
      else utf8_3 c)"
| "TextEncoder_encode (c # d # ds) =
     (if c < 0x80 then utf8_1 c @ TextEncoder_encode (d # ds)
      else if c < 0x800 then utf8_2 c @ TextEncoder_encode (d # ds)
      else if is_high c \<and> is_low d then utf8_4 c d @ TextEncoder_encode ds
      else if is_high c \<or> is_low c then [0xEF, 0xBF, 0xBD] @ TextEncoder_encode (d # ds)
      else utf8_3 c @ TextEncoder_encode (d # ds))"

text \<open>
  \<open>new Uint8Array(initialBytes.length + dataBytes.length)\<close> is zero-filled;
  \<open>set(source, offset)\<close> copies \<open>source\<close> to \<open>offset\<close> (it throws a \<open>RangeError\<close>
  where the source does not fit, which is \<open>None\<close> here).
\<close>

definition set_at :: "uint8 list \<Rightarrow> uint8 list \<Rightarrow> nat \<Rightarrow> uint8 list option" where
  "set_at target source offset =
     (if offset + length source \<le> length target
      then Some (take offset target @ source @ drop (offset + length source) target)
      else None)"

definition combinedData :: "uint8 list \<Rightarrow> uint8 list \<Rightarrow> uint8 list option" where
  "combinedData initial dataBytes =
     (case set_at (replicate (length initial + length dataBytes) 0) initial 0 of
        None \<Rightarrow> None
      | Some c \<Rightarrow> set_at c dataBytes (length initial))"

subsection \<open>The xor loop (lines 109 to 126)\<close>

definition key :: "uint8 list" where
  "key =
    [0x09, 0x9d, 0xc8, 0x96, 0x3f, 0x9b, 0x5e, 0x0c, 0xce, 0xc8, 0xa5, 0xef, 0xa4, 0x21, 0xbe, 0x7c,
     0xb0, 0xc2, 0xb0, 0xc9, 0xd5, 0x5c, 0xcc, 0x33, 0x79, 0x52, 0xe7, 0x83, 0x3c, 0xd2, 0x79, 0xd3,
     0x49, 0xc0, 0xf9, 0x70, 0xe9, 0xa6, 0x34, 0x42, 0x2b, 0x13, 0xfb, 0xd0, 0x26, 0x34, 0xf2, 0xd8,
     0x86, 0xb5, 0x72, 0xd5, 0x13, 0x74, 0x5d, 0xc5, 0xb2, 0xaa, 0x4d, 0x68, 0x3f, 0x1a, 0xaa, 0x6e]"

definition keylen :: nat where
  "keylen = length key"

text \<open>
  \<open>for (let i = 4; i < datalen; i++) combinedData[i] = combinedData[i] ^ key[i % keylen]
  ^ combinedData[i % 4]\<close>, where \<open>datalen\<close> is \<open>combinedData.length\<close>, which an
  assignment to an element does not change. The loop is entered only with \<open>i < datalen\<close>,
  and \<open>i % keylen\<close> is below the key's length, so every read is in range; a read of a
  typed array out of range would give \<open>undefined\<close>, which \<open>^\<close> takes as 0.
\<close>

definition read_at :: "uint8 list \<Rightarrow> nat \<Rightarrow> uint8" where
  "read_at a i = (if i < length a then a ! i else 0)"

function xor_loop :: "nat \<Rightarrow> uint8 list \<Rightarrow> uint8 list" where
  "xor_loop i c =
     (if i < length c
      then xor_loop (i + 1)
             (c[i := read_at c i XOR read_at key (i mod keylen) XOR read_at c (i mod 4)])
      else c)"
  by pat_completeness auto
termination
  by (relation "measure (\<lambda>(i, c). length c - i)") auto

declare xor_loop.simps [simp del]

subsection \<open>Base64 (lines 131 to 134)\<close>

text \<open>
  \<open>String.fromCharCode(...combinedData)\<close>: one code unit for each byte. (The number of
  arguments an engine accepts in one call is not part of the language and is not modelled.)
\<close>

definition binaryString :: "uint8 list \<Rightarrow> jsstring" where
  "binaryString c = map ucast c"

text \<open>
  \<open>btoa\<close> throws an \<open>InvalidCharacterError\<close> on a code unit above \<open>0xFF\<close>; otherwise it
  is the Base64 of RFC 4648 over the standard alphabet, padded with \<open>=\<close>.
\<close>

datatype error = RangeError | InvalidCharacterError

definition alphabet :: jsstring where
  "alphabet = js ''ABCDEFGHIJKLMNOPQRSTUVWXYZabcdefghijklmnopqrstuvwxyz0123456789+/''"

definition sextet :: "uint8 \<Rightarrow> 16 word" where
  "sextet n = alphabet ! unat (n AND 0x3F)"

fun base64 :: "uint8 list \<Rightarrow> jsstring" where
  "base64 [] = []"
| "base64 [a] = [sextet (drop_bit 2 a), sextet (push_bit 4 (a AND 3)), 0x3D, 0x3D]"
| "base64 [a, b] =
     [sextet (drop_bit 2 a), sextet (push_bit 4 (a AND 3) OR drop_bit 4 b),
      sextet (push_bit 2 (b AND 0xF)), 0x3D]"
| "base64 (a # b # c # rest) =
     [sextet (drop_bit 2 a), sextet (push_bit 4 (a AND 3) OR drop_bit 4 b),
      sextet (push_bit 2 (b AND 0xF) OR drop_bit 6 c), sextet (c AND 0x3F)] @ base64 rest"

definition btoa :: "jsstring \<Rightarrow> error + jsstring" where
  "btoa s =
     (if list_all (\<lambda>c. c \<le> 0xFF) s then Inr (base64 (map ucast s))
      else Inl InvalidCharacterError)"

subsection \<open>The function\<close>

text \<open>The buffer before the loop, from the environment and the five parameters.\<close>

definition plaintext ::
  "env \<Rightarrow> jsstring option \<Rightarrow> jsstring option \<Rightarrow> jsstring option \<Rightarrow> jsstring option
     \<Rightarrow> jsstring option \<Rightarrow> uint8 list option" where
  "plaintext e deviceIdentifier sn timestamp deviceModel os =
     combinedData
       (initialBytes (finalTimestamp (Date_now e) timestamp))
       (TextEncoder_encode
          (dataString (finalDeviceIdentifier (cookies e) deviceIdentifier) (finalSn sn)
             (finalTimestamp (Date_now e) timestamp) (finalDeviceModel (cookies e) deviceModel)
             (finalOs (cookies e) os) (development (NODE_ENV e))))"

definition getRAuthToken ::
  "env \<Rightarrow> jsstring option \<Rightarrow> jsstring option \<Rightarrow> jsstring option \<Rightarrow> jsstring option
     \<Rightarrow> jsstring option \<Rightarrow> error + jsstring" where
  "getRAuthToken e deviceIdentifier sn timestamp deviceModel os =
     (case plaintext e deviceIdentifier sn timestamp deviceModel os of
        None \<Rightarrow> Inl RangeError
      | Some c \<Rightarrow> btoa (binaryString (xor_loop 4 c)))"

subsection \<open>The seed as the specification words it\<close>

text \<open>
  The seed derivation with every step wrapped to 32 bits: \<open>seed32 t\<close> is
  \<open>((t << 21) xor (t << 19) xor t) * 251 + 19\<close> in \<open>32 word\<close>, and \<open>byte_of k w\<close> is the
  byte of \<open>w\<close> that starts at bit \<open>k\<close>.
\<close>

definition seed32 :: "int32 \<Rightarrow> int32" where
  "seed32 t = (push_bit 21 t XOR push_bit 19 t XOR t) * 251 + 19"

definition byte_of :: "nat \<Rightarrow> int32 \<Rightarrow> int32" where
  "byte_of k w = drop_bit k w AND 0xff"

text \<open>
  The field string as the specification words it: the fields joined with a separator, and
  a timestamp field that is the decimal text of an integer (a minus sign for a negative
  one, then digits with no leading zero, whose value in base 10 is the magnitude).
\<close>

fun join_with :: "jsstring \<Rightarrow> jsstring list \<Rightarrow> jsstring" where
  "join_with sep [] = []"
| "join_with sep [x] = x"
| "join_with sep (x # y # ys) = x @ sep @ join_with sep (y # ys)"

definition decimal_value :: "jsstring \<Rightarrow> int" where
  "decimal_value ds = foldl (\<lambda>a c. a * 10 + digit_value c) 0 ds"

definition decimal_digits :: "int \<Rightarrow> jsstring \<Rightarrow> bool" where
  "decimal_digits m ds =
     (ds \<noteq> [] \<and> list_all is_digit ds \<and> (ds = [0x30] \<or> hd ds \<noteq> 0x30) \<and> decimal_value ds = m)"

definition decimal_text :: "int \<Rightarrow> jsstring \<Rightarrow> bool" where
  "decimal_text n s =
     (if n < 0 then s \<noteq> [] \<and> hd s = 0x2D \<and> decimal_digits (- n) (tl s) else decimal_digits n s)"

text \<open>
  UTF-8 as the standard words it: the scalar values of the string (a surrogate pair is one
  value above \<open>0xFFFF\<close>, a lone surrogate is replaced by \<open>0xFFFD\<close>) and, for each value,
  one to four bytes by the table of RFC 3629, written with division and remainder.
\<close>

definition utf8_bytes :: "nat \<Rightarrow> nat list" where
  "utf8_bytes u =
     (if u < 0x80 then [u]
      else if u < 0x800 then [0xC0 + u div 0x40, 0x80 + u mod 0x40]
      else if u < 0x10000 then [0xE0 + u div 0x1000, 0x80 + u div 0x40 mod 0x40, 0x80 + u mod 0x40]
      else [0xF0 + u div 0x40000, 0x80 + u div 0x1000 mod 0x40, 0x80 + u div 0x40 mod 0x40,
            0x80 + u mod 0x40])"

fun scalar_values :: "jsstring \<Rightarrow> nat list" where
  "scalar_values [] = []"
| "scalar_values [c] = [if is_high c \<or> is_low c then 0xFFFD else unat c]"
| "scalar_values (c # d # ds) =
     (if is_high c \<and> is_low d
      then (0x10000 + (unat c - 0xD800) * 0x400 + (unat d - 0xDC00)) # scalar_values ds
      else (if is_high c \<or> is_low c then 0xFFFD else unat c) # scalar_values (d # ds))"

text \<open>The bytes \<open>TextEncoder_encode\<close> gives a code unit that does not open a pair.\<close>

definition unit_bytes :: "16 word \<Rightarrow> uint8 list" where
  "unit_bytes c =
     (if c < 0x80 then utf8_1 c
      else if c < 0x800 then utf8_2 c
      else if is_high c \<or> is_low c then [0xEF, 0xBF, 0xBD]
      else utf8_3 c)"

section \<open>Properties\<close>

subsection \<open>The seed\<close>

lemma ToInt32_random_muladd: "ToInt32 (random_muladd r) = r * 251 + 19"
  by (simp add: ToInt32_def random_muladd_def)

lemma random_wrapped: "ToInt32 (random (Num n)) = seed32 (word_of_int n)"
proof -
  have "ToInt32 (random (Num n)) = random_mix (Num n) * 251 + 19"
    by (simp only: random_def ToInt32_random_muladd)
  then show ?thesis
    by (simp add: random_mix_def seed32_def ToInt32_def)
qed

text \<open>The sign bits that \<open>>>\<close> shifts in lie above the byte that \<open>& 0xff\<close> keeps.\<close>

lemma signed_shift_low_byte:
  fixes w :: int32
  assumes "k \<le> 24"
  shows "signed_drop_bit k w AND 0xff = drop_bit k w AND 0xff"
proof (rule bit_word_eqI)
  fix n :: nat
  assume "n < LENGTH(32)"
  have m: "(0xff :: int32) = mask 8"
    by (simp add: mask_eq_exp_minus_1)
  show "bit (signed_drop_bit k w AND 0xff) n = bit (drop_bit k w AND 0xff) n"
    using assms unfolding m
    by (auto simp add: bit_simps)
qed

text \<open>
  Claim C6. For every integer timestamp \<open>n\<close>, inside or outside the signed 32-bit range,
  negative or not, the four bytes \<open>b0\<close> to \<open>b3\<close> that the code extracts from
  \<open>random * 251 + 19\<close> (a product the code does not truncate before it shifts and
  masks) are the four bytes, most significant first, of the computation
  \<open>((t << 21) xor (t << 19) xor t) * 251 + 19\<close> carried out in 32 bits with wrap-around
  at every step, \<open>t\<close> being \<open>n\<close> reduced to 32 bits; and the seed is the chained xor of
  those bytes.
\<close>

theorem seed_bytes_are_wrapped_32bit:
  "b0 (random (Num n)) = byte_of 24 (seed32 (word_of_int n)) \<and>
   b1 (random (Num n)) = byte_of 16 (seed32 (word_of_int n)) \<and>
   b2 (random (Num n)) = byte_of 8 (seed32 (word_of_int n)) \<and>
   b3 (random (Num n)) = byte_of 0 (seed32 (word_of_int n)) \<and>
   initialBytes (Num n) =
     map ucast
       [byte_of 24 (seed32 (word_of_int n)) XOR byte_of 16 (seed32 (word_of_int n)),
        byte_of 16 (seed32 (word_of_int n)) XOR byte_of 8 (seed32 (word_of_int n)),
        byte_of 8 (seed32 (word_of_int n)) XOR byte_of 0 (seed32 (word_of_int n)),
        byte_of 0 (seed32 (word_of_int n)) XOR byte_of 24 (seed32 (word_of_int n))]"
proof -
  have bytes:
    "b0 (random (Num n)) = byte_of 24 (seed32 (word_of_int n))"
    "b1 (random (Num n)) = byte_of 16 (seed32 (word_of_int n))"
    "b2 (random (Num n)) = byte_of 8 (seed32 (word_of_int n))"
    "b3 (random (Num n)) = byte_of 0 (seed32 (word_of_int n))"
    by (simp_all add: b0_def b1_def b2_def b3_def byte_of_def random_wrapped
        signed_shift_low_byte)
  then show ?thesis
    by (simp add: initialBytes_def Let_def)
qed

text \<open>
  Claim C2. The timestamp \<open>"0"\<close> resolves to 0; for the timestamp 0 the mixing step
  gives 0, the multiply-add gives 19, the extracted bytes are \<open>[0, 0, 0, 19]\<close> and the
  chained xor turns them into the seed \<open>[0, 0, 19, 19]\<close>.
\<close>

theorem seed_of_timestamp_0:
  "finalTimestamp now (Some (js ''0'')) = Num 0 \<and>
   random_mix (Num 0) = 0 \<and> random (Num 0) = Num 19 \<and>
   [b0 (Num 19), b1 (Num 19), b2 (Num 19), b3 (Num 19)] = [0, 0, 0, 19] \<and>
   initialBytes (Num 0) = [0, 0, 19, 19]"
proof -
  have "finalTimestamp now (Some (js ''0'')) = Num 0"
    by (simp add: js_def finalTimestamp_def parseInt10_def is_whitespace_def is_digit_def
        digit_value_def double_of_int_def)
  then show ?thesis
    by (simp add: initialBytes_def random_def random_mix_def random_muladd_def ToInt32_def
        b0_def b1_def b2_def b3_def)
qed

subsection \<open>The xor loop\<close>

lemma length_key: "length key = 64"
  by (simp add: key_def)

lemma read_at_in_range: "i < length a \<Longrightarrow> read_at a i = a ! i"
  by (simp add: read_at_def)

lemma xor_loop_length: "length (xor_loop i c) = length c"
  by (induction i c rule: xor_loop.induct) (subst xor_loop.simps, simp)

text \<open>The loop started at \<open>i\<close> writes no index below \<open>i\<close>.\<close>

lemma xor_loop_below: "j < i \<Longrightarrow> xor_loop i c ! j = c ! j"
proof (induction i c rule: xor_loop.induct)
  case (1 i c)
  show ?case
  proof (cases "i < length c")
    case True
    with 1 show ?thesis by (subst xor_loop.simps) simp
  next
    case False
    then show ?thesis by (subst xor_loop.simps) simp
  qed
qed

text \<open>
  Started at 4 or later, the loop reads \<open>c[j % 4]\<close> from the part it never writes, so
  every byte from \<open>i\<close> on is the xor of three bytes of the buffer it was given.
\<close>

lemma xor_loop_at:
  "4 \<le> i \<Longrightarrow> i \<le> j \<Longrightarrow> j < length c \<Longrightarrow>
   xor_loop i c ! j = c ! j XOR key ! (j mod 64) XOR c ! (j mod 4)"
proof (induction i c rule: xor_loop.induct)
  case (1 i c)
  let ?c = "c[i := read_at c i XOR read_at key (i mod keylen) XOR read_at c (i mod 4)]"
  have il: "i < length c" using 1 by simp
  have kl: "keylen = 64" by (simp add: keylen_def length_key)
  have unfold: "xor_loop i c = xor_loop (i + 1) ?c"
    using il by (subst xor_loop.simps) simp
  show ?case
  proof (cases "j = i")
    case True
    have "xor_loop (i + 1) ?c ! i = ?c ! i" by (rule xor_loop_below) simp
    also have "\<dots> = read_at c i XOR read_at key (i mod keylen) XOR read_at c (i mod 4)" using il by simp
    also have "\<dots> = c ! i XOR key ! (i mod 64) XOR c ! (i mod 4)"
      using il 1(2) by (simp add: read_at_in_range kl length_key)
    finally show ?thesis using True unfold by simp
  next
    case False
    then have "xor_loop (i + 1) ?c ! j = ?c ! j XOR key ! (j mod 64) XOR ?c ! (j mod 4)"
      using 1 il by (intro "1.IH") simp_all
    moreover have "?c ! j = c ! j" using False by simp
    moreover have "?c ! (j mod 4) = c ! (j mod 4)"
    proof -
      have "j mod 4 < 4" by simp
      then have "j mod 4 \<noteq> i" using 1(2) by linarith
      then show ?thesis by simp
    qed
    ultimately show ?thesis using unfold by simp
  qed
qed

subsection \<open>Strings, digits and UTF-8\<close>

lemma js_Nil: "js [] = []"
  by (simp add: js_def)

lemma js_Cons: "js (c # cs) = of_char c # js cs"
  by (simp add: js_def)

lemmas resolve_defs = finalDeviceIdentifier_def finalSn_def finalDeviceModel_def finalOs_def
  development_def template_def or_else_def truthy_def destructure_def

lemmas parse_defs = finalTimestamp_def parseInt10_def is_whitespace_def is_digit_def
  digit_value_def double_of_int_def

lemma to_string_pos_safe: "x \<le> 2 ^ 53 \<Longrightarrow> to_string_pos x = digits x"
  by (simp add: to_string_pos_def)

lemmas print_defs = number_to_string_def to_string_pos_safe

lemma small_digit_cases:
  fixes k :: int
  assumes "0 \<le> k" "k < 10"
  shows "k \<in> {0, 1, 2, 3, 4, 5, 6, 7, 8, 9}"
  using assms by simp arith

lemma digit_char_value:
  assumes "0 \<le> k" "k < 10"
  shows "digit_value (0x30 + word_of_int k) = k"
  using small_digit_cases [OF assms] by (auto simp add: digit_value_def)

lemma digit_char_is_digit:
  assumes "0 \<le> k" "k < 10"
  shows "is_digit (0x30 + word_of_int k)"
  using small_digit_cases [OF assms] by (auto simp add: is_digit_def)

lemma digit_char_zero:
  assumes "0 \<le> k" "k < 10"
  shows "((word_of_int k :: 16 word) = 0) = (k = 0)"
  using small_digit_cases [OF assms] by auto

lemma digits_nonempty: "digits n \<noteq> []"
  by (subst digits.simps) simp

lemma digits_0: "digits 0 = [0x30]"
  by (subst digits.simps) simp

lemma digits_all_digit: "0 \<le> n \<Longrightarrow> list_all is_digit (digits n)"
proof (induction n rule: digits.induct)
  case (1 n)
  show ?case
  proof (cases "n < 10")
    case True
    with 1 show ?thesis by (subst digits.simps) (simp add: digit_char_is_digit)
  next
    case False
    with 1 show ?thesis by (subst digits.simps) (simp add: digit_char_is_digit)
  qed
qed

lemma decimal_value_snoc: "decimal_value (ds @ [c]) = decimal_value ds * 10 + digit_value c"
  by (simp add: decimal_value_def)

lemma digits_value: "0 \<le> n \<Longrightarrow> decimal_value (digits n) = n"
proof (induction n rule: digits.induct)
  case (1 n)
  show ?case
  proof (cases "n < 10")
    case True
    with 1 show ?thesis
      by (subst digits.simps) (simp add: decimal_value_def digit_char_value)
  next
    case False
    with 1 have "decimal_value (digits (n div 10)) = n div 10" by simp
    with False 1 show ?thesis
      by (subst digits.simps) (simp add: decimal_value_snoc digit_char_value)
  qed
qed

lemma digits_leading: "0 < n \<Longrightarrow> hd (digits n) \<noteq> 0x30"
proof (induction n rule: digits.induct)
  case (1 n)
  show ?case
  proof (cases "n < 10")
    case True
    with 1 show ?thesis
      by (subst digits.simps) (simp add: digit_char_zero)
  next
    case False
    with 1 have "hd (digits (n div 10)) \<noteq> 0x30" by simp
    with False show ?thesis
      by (subst digits.simps) (simp add: digits_nonempty)
  qed
qed

lemma decimal_digits_digits:
  assumes "0 \<le> n"
  shows "decimal_digits n (digits n)"
proof (cases "n = 0")
  case True
  then show ?thesis
    by (simp add: decimal_digits_def digits_0 is_digit_def decimal_value_def digit_value_def)
next
  case False
  with assms have "0 < n" by simp
  then show ?thesis
    using assms
    by (simp add: decimal_digits_def digits_nonempty digits_all_digit digits_value digits_leading)
qed

text \<open>An integer that is a double with room to spare prints as its decimal text.\<close>

lemma decimal_text_number_to_string:
  assumes "safe_integer n"
  shows "decimal_text n (number_to_string (Num n))"
proof -
  have "n \<le> 2 ^ 53" and "- n \<le> 2 ^ 53"
    using assms by (simp_all add: safe_integer_def)
  then show ?thesis
    by (simp add: decimal_text_def number_to_string_def to_string_pos_safe decimal_digits_digits)
qed

text \<open>A code unit below \<open>0x80\<close> is one byte, whatever follows it.\<close>

lemma TextEncoder_encode_ascii_Cons:
  "c < 0x80 \<Longrightarrow> TextEncoder_encode (c # cs) = ucast c # TextEncoder_encode cs"
  by (cases cs) (simp_all add: utf8_1_def)

lemma TextEncoder_encode_ascii_append:
  "list_all (\<lambda>c. c < 0x80) as \<Longrightarrow>
   TextEncoder_encode (as @ cs) = map ucast as @ TextEncoder_encode cs"
  by (induction as) (simp_all add: TextEncoder_encode_ascii_Cons)

subsection \<open>The buffer before the loop\<close>

lemma initialBytes_Num_0: "initialBytes (Num 0) = [0, 0, 19, 19]"
  by (simp add: initialBytes_def random_def random_mix_def random_muladd_def ToInt32_def
      b0_def b1_def b2_def b3_def)

lemma initialBytes_NaN: "initialBytes NaN = [0, 0, 19, 19]"
  by (simp add: initialBytes_def random_def random_mix_def random_muladd_def ToInt32_def
      b0_def b1_def b2_def b3_def)

lemma length_initialBytes: "length (initialBytes t) = 4"
  by (simp add: initialBytes_def Let_def)

text \<open>Both calls of \<open>set\<close> fit, and together they overwrite every zero of the new array.\<close>

lemma combinedData_eq: "combinedData initial d = Some (initial @ d)"
  by (simp add: combinedData_def set_at_def)

lemma plaintext_eq:
  "plaintext e deviceIdentifier sn timestamp deviceModel os =
     Some (initialBytes (finalTimestamp (Date_now e) timestamp) @
       TextEncoder_encode
          (dataString (finalDeviceIdentifier (cookies e) deviceIdentifier) (finalSn sn)
             (finalTimestamp (Date_now e) timestamp) (finalDeviceModel (cookies e) deviceModel)
             (finalOs (cookies e) os) (development (NODE_ENV e))))"
  by (simp add: plaintext_def combinedData_eq)

lemma dataString_join:
  "dataString devId sn ts model os dev =
     join_with (js ''|'')
       [devId, sn, number_to_string ts, model, os, js ''Web'', js ''3'',
        if dev then js ''true'' else js ''false'']"
  by (simp add: dataString_def js_def)

text \<open>A small call, evaluated: no cookie data, every parameter given, timestamp \<open>"0"\<close>.\<close>

lemma plaintext_small:
  "plaintext \<lparr>cookies = None, NODE_ENV = None, Date_now = 0\<rparr>
     (Some (js ''a'')) (Some (js ''b'')) (Some (js ''0'')) (Some (js ''c'')) (Some (js ''d'')) =
   Some ([0, 0, 19, 19] @ map of_char ''web-fingerprint-a|b|0|c|d|Web|3|false'')"
  apply (simp add: plaintext_eq)
  apply (simp add: parse_defs js_Nil js_Cons)
  apply (simp add: initialBytes_Num_0)
  apply (simp add: dataString_def resolve_defs print_defs digits.simps js_Nil js_Cons
      utf8_1_def)
  done

subsection \<open>The cipher stage\<close>

text \<open>
  Claim C1. For every buffer \<open>p\<close> the pipeline hands to the loop, the loop's output has
  the length of \<open>p\<close>, its bytes 0 to 3 are the seed bytes unchanged, and for every index
  \<open>i\<close> from 4 to the last the byte at \<open>i\<close> is \<open>p[i] xor key[i mod 64] xor p[i mod 4]\<close>,
  where \<open>p[i mod 4]\<close> is a seed byte.
\<close>

theorem cipher_stage:
  assumes "plaintext e deviceIdentifier sn timestamp deviceModel os = Some p"
  shows "take 4 (xor_loop 4 p) = initialBytes (finalTimestamp (Date_now e) timestamp) \<and>
         length (xor_loop 4 p) = length p \<and>
         (\<forall>i. 4 \<le> i \<and> i < length p \<longrightarrow>
            xor_loop 4 p ! i = p ! i XOR key ! (i mod 64) XOR p ! (i mod 4) \<and>
            p ! (i mod 4) = initialBytes (finalTimestamp (Date_now e) timestamp) ! (i mod 4))"
proof -
  let ?seed = "initialBytes (finalTimestamp (Date_now e) timestamp)"
  obtain d where p: "p = ?seed @ d"
    using assms by (auto simp add: plaintext_eq)
  have len: "length ?seed = 4" by (rule length_initialBytes)
  have "take 4 (xor_loop 4 p) = take 4 p"
    by (rule nth_equalityI) (simp_all add: xor_loop_length xor_loop_below)
  then have prefix: "take 4 (xor_loop 4 p) = ?seed"
    using p len by simp
  have seed_at: "p ! (i mod 4) = ?seed ! (i mod 4)" for i
    using p len by (simp add: nth_append)
  show ?thesis
    using prefix seed_at by (simp add: xor_loop_length xor_loop_at)
qed

theorem cipher_stage_witness:
  "plaintext \<lparr>cookies = None, NODE_ENV = None, Date_now = 0\<rparr>
     (Some (js ''a'')) (Some (js ''b'')) (Some (js ''0'')) (Some (js ''c'')) (Some (js ''d'')) =
   Some ([0, 0, 19, 19] @ map of_char ''web-fingerprint-a|b|0|c|d|Web|3|false'') \<and>
   xor_loop 4 ([0, 0, 19, 19] @ map of_char ''web-fingerprint-a|b|0|c|d|Web|3|false'') ! 5 = 0xFE \<and>
   take 4 (xor_loop 4 ([0, 0, 19, 19] @ map of_char ''web-fingerprint-a|b|0|c|d|Web|3|false'')) =
     [0, 0, 19, 19]"
proof -
  let ?e = "\<lparr>cookies = None, NODE_ENV = None, Date_now = 0\<rparr>"
  let ?p = "[0, 0, 19, 19] @ map of_char ''web-fingerprint-a|b|0|c|d|Web|3|false'' :: uint8 list"
  have h: "plaintext ?e (Some (js ''a'')) (Some (js ''b'')) (Some (js ''0'')) (Some (js ''c''))
      (Some (js ''d'')) = Some ?p"
    by (rule plaintext_small)
  have ts: "finalTimestamp (Date_now ?e) (Some (js ''0'')) = Num 0"
    by (simp add: parse_defs js_Nil js_Cons)
  have "take 4 (xor_loop 4 ?p) = [0, 0, 19, 19]"
    using cipher_stage [OF h] unfolding ts by (simp add: initialBytes_Num_0)
  moreover have "xor_loop 4 ?p ! 5 = 0xFE"
  proof -
    have "xor_loop 4 ?p ! 5 = ?p ! 5 XOR key ! (5 mod 64) XOR ?p ! (5 mod 4)"
      using cipher_stage [OF h] by simp
    then show ?thesis by (simp add: key_def)
  qed
  ultimately show ?thesis using h by simp
qed

subsection \<open>UTF-8\<close>

lemma or_above:
  fixes a q :: nat
  assumes "q < 2 ^ k"
  shows "a * 2 ^ k OR q = a * 2 ^ k + q"
proof -
  have q: "take_bit k q = q"
    using assms by (simp add: take_bit_nat_eq_self)
  have "push_bit k a AND take_bit k q = 0"
    by (rule bit_eqI) (simp add: bit_simps)
  then have "push_bit k a + take_bit k q = push_bit k a OR take_bit k q"
    by (rule disjunctive_add_eq_or)
  then show ?thesis
    by (simp add: q push_bit_eq_mult mult.commute)
qed

lemma lead_2: "q < 32 \<Longrightarrow> (192::nat) OR q = 192 + q"
  using or_above [of q 6 3] by simp

lemma lead_3: "q < 16 \<Longrightarrow> (224::nat) OR q = 224 + q"
  using or_above [of q 5 7] by simp

lemma lead_4: "q < 8 \<Longrightarrow> (240::nat) OR q = 240 + q"
  using or_above [of q 4 15] by simp

lemma cont: "q < 64 \<Longrightarrow> (128::nat) OR q = 128 + q"
  using or_above [of q 7 1] by simp

lemma low6: "(m::nat) AND 63 = m mod 64"
proof -
  have "m AND mask 6 = take_bit 6 m" by (simp add: take_bit_eq_mask)
  then show ?thesis by (simp add: take_bit_eq_mod mask_eq_exp_minus_1)
qed

lemma ucast_small16:
  fixes w :: "16 word"
  assumes "unat w < 256"
  shows "unat (ucast w :: 8 word) = unat w"
  using assms by (simp add: unsigned_ucast_eq take_bit_nat_eq_self)

lemma unat_low6_16:
  fixes c :: "16 word"
  shows "unat (c AND 0x3F) = unat c mod 64"
  by (simp add: unsigned_and_eq low6)

lemma byte_hi16:
  fixes c :: "16 word"
  assumes "unat c div 2 ^ k < 256"
  shows "unat (ucast (drop_bit k c) :: 8 word) = unat c div 2 ^ k"
proof -
  have d: "unat (drop_bit k c) = unat c div 2 ^ k"
    unfolding unat_drop_bit_eq by (rule drop_bit_eq_div)
  show ?thesis
    using ucast_small16 [of "drop_bit k c"] assms unfolding d by simp
qed

lemma byte_lo16:
  fixes c :: "16 word"
  shows "unat (ucast (c AND 0x3F) :: 8 word) = unat c mod 64"
proof -
  have "unat (c AND 0x3F) < 256"
    unfolding unat_low6_16 by (rule less_trans [OF mod_less_divisor]) simp_all
  then show ?thesis
    using ucast_small16 [of "c AND 0x3F"] unfolding unat_low6_16 by simp
qed

lemma byte_mid16:
  fixes c :: "16 word"
  shows "unat (ucast (drop_bit k c AND 0x3F) :: 8 word) = unat c div 2 ^ k mod 64"
proof -
  have d: "unat (drop_bit k c) = unat c div 2 ^ k"
    unfolding unat_drop_bit_eq by (rule drop_bit_eq_div)
  show ?thesis
    using byte_lo16 [of "drop_bit k c"] unfolding d .
qed

lemma ucast_small32:
  fixes w :: "32 word"
  assumes "unat w < 256"
  shows "unat (ucast w :: 8 word) = unat w"
  using assms by (simp add: unsigned_ucast_eq take_bit_nat_eq_self)

lemma unat_low6_32:
  fixes c :: "32 word"
  shows "unat (c AND 0x3F) = unat c mod 64"
  by (simp add: unsigned_and_eq low6)

lemma byte_hi32:
  fixes c :: "32 word"
  assumes "unat c div 2 ^ k < 256"
  shows "unat (ucast (drop_bit k c) :: 8 word) = unat c div 2 ^ k"
proof -
  have d: "unat (drop_bit k c) = unat c div 2 ^ k"
    unfolding unat_drop_bit_eq by (rule drop_bit_eq_div)
  show ?thesis
    using ucast_small32 [of "drop_bit k c"] assms unfolding d by simp
qed

lemma byte_lo32:
  fixes c :: "32 word"
  shows "unat (ucast (c AND 0x3F) :: 8 word) = unat c mod 64"
proof -
  have "unat (c AND 0x3F) < 256"
    unfolding unat_low6_32 by (rule less_trans [OF mod_less_divisor]) simp_all
  then show ?thesis
    using ucast_small32 [of "c AND 0x3F"] unfolding unat_low6_32 by simp
qed

lemma byte_mid32:
  fixes c :: "32 word"
  shows "unat (ucast (drop_bit k c AND 0x3F) :: 8 word) = unat c div 2 ^ k mod 64"
proof -
  have d: "unat (drop_bit k c) = unat c div 2 ^ k"
    unfolding unat_drop_bit_eq by (rule drop_bit_eq_div)
  show ?thesis
    using byte_lo32 [of "drop_bit k c"] unfolding d .
qed

lemma or_lead_2: "unat b < 32 \<Longrightarrow> unat (0xC0 OR b :: 8 word) = 192 + unat b"
  by (simp add: unsigned_or_eq lead_2)

lemma or_lead_3: "unat b < 16 \<Longrightarrow> unat (0xE0 OR b :: 8 word) = 224 + unat b"
  by (simp add: unsigned_or_eq lead_3)

lemma or_lead_4: "unat b < 8 \<Longrightarrow> unat (0xF0 OR b :: 8 word) = 240 + unat b"
  by (simp add: unsigned_or_eq lead_4)

lemma or_cont: "unat b < 64 \<Longrightarrow> unat (0x80 OR b :: 8 word) = 128 + unat b"
  by (simp add: unsigned_or_eq cont)

lemma unat16_bound: "unat (c :: 16 word) < 65536"
  using unsigned_less [of c, where 'a = nat] by simp

lemma L1: "c < 0x80 \<Longrightarrow> map unat (utf8_1 c) = utf8_bytes (unat c)"
  using byte_hi16 [of c 0]
  by (simp add: utf8_1_def utf8_bytes_def word_less_nat_alt)

lemma L2:
  assumes "\<not> c < 0x80" "c < 0x800"
  shows "map unat (utf8_2 c) = utf8_bytes (unat c)"
proof -
  have m: "128 \<le> unat c" "unat c < 2048"
    using assms by (simp_all add: word_less_nat_alt)
  have h: "unat (ucast (drop_bit 6 c) :: 8 word) = unat c div 64"
    using byte_hi16 [of c 6] m by simp
  have "unat (0xC0 OR ucast (drop_bit 6 c) :: 8 word) = 192 + unat c div 64"
    using m by (simp add: or_lead_2 h)
  moreover have "unat (0x80 OR ucast (c AND 0x3F) :: 8 word) = 128 + unat c mod 64"
    by (simp add: or_cont byte_lo16)
  ultimately show ?thesis
    using m by (simp add: utf8_2_def utf8_bytes_def)
qed

lemma L3:
  assumes "\<not> c < 0x800"
  shows "map unat (utf8_3 c) = utf8_bytes (unat c)"
proof -
  have m: "2048 \<le> unat c" "unat c < 65536"
    using assms unat16_bound [of c] by (simp_all add: word_less_nat_alt)
  have h: "unat (ucast (drop_bit 12 c) :: 8 word) = unat c div 4096"
    using byte_hi16 [of c 12] m by simp
  have "unat (0xE0 OR ucast (drop_bit 12 c) :: 8 word) = 224 + unat c div 4096"
    using m by (simp add: or_lead_3 h)
  moreover have "unat (0x80 OR ucast (drop_bit 6 c AND 0x3F) :: 8 word) = 128 + unat c div 64 mod 64"
    using byte_mid16 [of 6 c] by (simp add: or_cont)
  moreover have "unat (0x80 OR ucast (c AND 0x3F) :: 8 word) = 128 + unat c mod 64"
    by (simp add: or_cont byte_lo16)
  ultimately show ?thesis
    using m by (simp add: utf8_3_def utf8_bytes_def)
qed

lemma pair_value:
  assumes "is_high h" "is_low l"
  shows "unat (0x10000 + push_bit 10 (ucast (h - 0xD800)) + ucast (l - 0xDC00) :: 32 word) =
         0x10000 + (unat h - 0xD800) * 0x400 + (unat l - 0xDC00)"
proof -
  have hb: "0xD800 \<le> unat h" "unat h < 0xDC00" and lb: "0xDC00 \<le> unat l" "unat l < 0xE000"
    using assms by (simp_all add: is_high_def is_low_def word_le_nat_alt word_less_nat_alt)
  have h': "unat (h - 0xD800) = unat h - 0xD800"
    using hb by (simp add: unat_sub word_le_nat_alt)
  have l': "unat (l - 0xDC00) = unat l - 0xDC00"
    using lb by (simp add: unat_sub word_le_nat_alt)
  have uh: "unat (ucast (h - 0xD800) :: 32 word) = unat h - 0xD800"
    using hb by (simp add: unsigned_ucast_eq h' take_bit_nat_eq_self)
  have ul: "unat (ucast (l - 0xDC00) :: 32 word) = unat l - 0xDC00"
    using lb by (simp add: unsigned_ucast_eq l' take_bit_nat_eq_self)
  have ph: "unat (push_bit 10 (ucast (h - 0xD800)) :: 32 word) = (unat h - 0xD800) * 0x400"
    using hb by (simp add: push_bit_eq_mult unat_word_ariths uh)
  show ?thesis
    using hb lb by (simp add: unat_word_ariths ph ul)
qed

lemma L4:
  assumes "is_high h" "is_low l"
  shows "map unat (utf8_4 h l) =
         utf8_bytes (0x10000 + (unat h - 0xD800) * 0x400 + (unat l - 0xDC00))"
proof -
  define cp :: "32 word" where
    "cp = 0x10000 + push_bit 10 (ucast (h - 0xD800)) + ucast (l - 0xDC00)"
  define u :: nat where "u = 0x10000 + (unat h - 0xD800) * 0x400 + (unat l - 0xDC00)"
  have u: "unat cp = u"
    unfolding cp_def u_def using assms by (rule pair_value)
  have hb: "unat h < 0xDC00" and lb: "unat l < 0xE000"
    using assms by (simp_all add: is_high_def is_low_def word_less_nat_alt)
  have b: "65536 \<le> u" "u < 1114112"
    unfolding u_def using hb lb by simp_all
  have h: "unat (ucast (drop_bit 18 cp) :: 8 word) = u div 262144"
    using byte_hi32 [of cp 18] b unfolding u by simp
  have b0: "unat (0xF0 OR ucast (drop_bit 18 cp) :: 8 word) = 240 + u div 262144"
    using b by (simp add: or_lead_4 h)
  have b1: "unat (0x80 OR ucast (drop_bit 12 cp AND 0x3F) :: 8 word) = 128 + u div 4096 mod 64"
    using byte_mid32 [of 12 cp] unfolding u by (simp add: or_cont)
  have b2: "unat (0x80 OR ucast (drop_bit 6 cp AND 0x3F) :: 8 word) = 128 + u div 64 mod 64"
    using byte_mid32 [of 6 cp] unfolding u by (simp add: or_cont)
  have b3: "unat (0x80 OR ucast (cp AND 0x3F) :: 8 word) = 128 + u mod 64"
    using byte_lo32 [of cp] unfolding u by (simp add: or_cont)
  have "utf8_4 h l =
      [0xF0 OR ucast (drop_bit 18 cp), 0x80 OR ucast (drop_bit 12 cp AND 0x3F),
       0x80 OR ucast (drop_bit 6 cp AND 0x3F), 0x80 OR ucast (cp AND 0x3F)]"
    unfolding utf8_4_def cp_def Let_def ..
  then have "map unat (utf8_4 h l) =
      [240 + u div 262144, 128 + u div 4096 mod 64, 128 + u div 64 mod 64, 128 + u mod 64]"
    by (simp only: list.map b0 b1 b2 b3)
  also have "\<dots> = utf8_bytes u"
    using b by (simp add: utf8_bytes_def)
  finally show ?thesis
    unfolding u_def .
qed

lemma replacement_bytes: "map unat [0xEF, 0xBF, 0xBD :: uint8] = utf8_bytes 0xFFFD"
  by (simp add: utf8_bytes_def)

lemma surrogate_high: "is_high c \<or> is_low c \<Longrightarrow> \<not> c < 0x800"
  by (auto simp add: is_high_def is_low_def word_le_nat_alt word_less_nat_alt)

lemma not_ascii: "\<not> c < 0x800 \<Longrightarrow> \<not> c < (0x80 :: 16 word)"
  by (simp add: word_less_nat_alt)

lemma unit_bytes_utf8:
  "map unat (unit_bytes c) = utf8_bytes (if is_high c \<or> is_low c then 0xFFFD else unat c)"
proof (cases "is_high c \<or> is_low c")
  case True
  then have "\<not> c < 0x800" by (rule surrogate_high)
  moreover from this have "\<not> c < 0x80" by (rule not_ascii)
  ultimately show ?thesis
    using True replacement_bytes by (simp add: unit_bytes_def)
next
  case False
  show ?thesis
  proof (cases "c < 0x80")
    case True
    with False show ?thesis by (simp add: unit_bytes_def L1)
  next
    case not128: False
    show ?thesis
    proof (cases "c < 0x800")
      case True
      with False not128 show ?thesis by (simp add: unit_bytes_def L2)
    next
      case not2048: False
      with False not128 show ?thesis by (simp add: unit_bytes_def L3)
    qed
  qed
qed

lemma TextEncoder_encode_single: "TextEncoder_encode [c] = unit_bytes c"
  by (simp add: unit_bytes_def)

lemma TextEncoder_encode_pair:
  "is_high c \<Longrightarrow> is_low d \<Longrightarrow>
   TextEncoder_encode (c # d # ds) = utf8_4 c d @ TextEncoder_encode ds"
proof -
  assume hl: "is_high c" "is_low d"
  then have a: "\<not> c < 0x800" by (simp add: surrogate_high)
  then have b: "\<not> c < 0x80" by (rule not_ascii)
  show ?thesis using hl a b by simp
qed

lemma TextEncoder_encode_unit:
  "\<not> (is_high c \<and> is_low d) \<Longrightarrow>
   TextEncoder_encode (c # d # ds) = unit_bytes c @ TextEncoder_encode (d # ds)"
  by (auto simp add: unit_bytes_def)

text \<open>\<open>TextEncoder_encode\<close> is UTF-8: its bytes are those of the table, value by value.\<close>

lemma TextEncoder_encode_utf8:
  "map unat (TextEncoder_encode s) = concat (map utf8_bytes (scalar_values s))"
proof (induction s rule: scalar_values.induct)
  case 1
  show ?case by simp
next
  case (2 c)
  show ?case
    by (simp only: TextEncoder_encode_single unit_bytes_utf8) simp
next
  case (3 c d ds)
  show ?case
  proof (cases "is_high c \<and> is_low d")
    case True
    then have hc: "is_high c" and ld: "is_low d" by simp_all
    have "map unat (TextEncoder_encode (c # d # ds)) =
        map unat (utf8_4 c d) @ map unat (TextEncoder_encode ds)"
      unfolding TextEncoder_encode_pair [OF hc ld] by (rule map_append)
    also have "\<dots> = utf8_bytes (0x10000 + (unat c - 0xD800) * 0x400 + (unat d - 0xDC00)) @
        concat (map utf8_bytes (scalar_values ds))"
      using "3.IH" (1) [OF True] L4 [OF hc ld] by simp
    also have "\<dots> = concat (map utf8_bytes (scalar_values (c # d # ds)))"
      using True by simp
    finally show ?thesis .
  next
    case False
    have "map unat (TextEncoder_encode (c # d # ds)) =
        map unat (unit_bytes c) @ map unat (TextEncoder_encode (d # ds))"
      unfolding TextEncoder_encode_unit [OF False] by (rule map_append)
    also have "\<dots> = utf8_bytes (if is_high c \<or> is_low c then 0xFFFD else unat c) @
        concat (map utf8_bytes (scalar_values (d # ds)))"
      using "3.IH" (2) [OF False] unit_bytes_utf8 [of c] by simp
    also have "\<dots> = concat (map utf8_bytes (scalar_values (c # d # ds)))"
      using False by auto
    finally show ?thesis .
  qed
qed

subsection \<open>The payload\<close>

lemma NaN_not_decimal: "\<not> (\<exists>n. decimal_text n (js ''NaN''))"
  by (auto simp add: decimal_text_def decimal_digits_def is_digit_def js_Nil js_Cons)

lemma exponent_not_decimal: "\<not> (\<exists>n. decimal_text n (js ''1e+21''))"
  by (auto simp add: decimal_text_def decimal_digits_def is_digit_def js_Nil js_Cons)

text \<open>
  The timestamp field is not always the decimal text of an integer. For the timestamp
  \<open>"abc"\<close> the buffer carries the text \<open>NaN\<close>; for the timestamp \<open>"1000000000000000000000"\<close>
  the resolved timestamp is \<open>10 ^ 21\<close> and its text is \<open>1e+21\<close>.
\<close>

theorem payload_layout_counterexample:
  "plaintext \<lparr>cookies = None, NODE_ENV = None, Date_now = 1700000000999\<rparr>
     (Some (js ''a'')) (Some (js ''b'')) (Some (js ''abc'')) (Some (js ''c'')) (Some (js ''d'')) =
   Some ([0, 0, 19, 19] @ TextEncoder_encode (js ''web-fingerprint-a|b|NaN|c|d|Web|3|false'')) \<and>
   number_to_string (finalTimestamp 1700000000999 (Some (js ''abc''))) = js ''NaN'' \<and>
   \<not> (\<exists>n. decimal_text n (number_to_string (finalTimestamp 1700000000999 (Some (js ''abc''))))) \<and>
   finalTimestamp 1700000000999 (Some (js ''1000000000000000000000'')) =
     Num 1000000000000000000000 \<and>
   number_to_string (Num 1000000000000000000000) = js ''1e+21'' \<and>
   \<not> (\<exists>n. decimal_text n (number_to_string (Num 1000000000000000000000)))"
proof -
  have ts: "finalTimestamp 1700000000999 (Some (js ''abc'')) = NaN"
    by (simp add: parse_defs js_Nil js_Cons)
  have str: "number_to_string NaN = js ''NaN''"
    by (simp add: number_to_string_def)
  have buf: "plaintext \<lparr>cookies = None, NODE_ENV = None, Date_now = 1700000000999\<rparr>
     (Some (js ''a'')) (Some (js ''b'')) (Some (js ''abc'')) (Some (js ''c'')) (Some (js ''d'')) =
   Some ([0, 0, 19, 19] @ TextEncoder_encode (js ''web-fingerprint-a|b|NaN|c|d|Web|3|false''))"
    apply (simp add: plaintext_eq ts initialBytes_NaN)
    apply (simp add: dataString_def resolve_defs number_to_string_def js_Nil js_Cons utf8_1_def)
    done
  have big: "finalTimestamp 1700000000999 (Some (js ''1000000000000000000000'')) =
     Num 1000000000000000000000"
    by code_simp
  have printed: "number_to_string (Num 1000000000000000000000) = js ''1e+21''"
    by code_simp
  have c2: "number_to_string (finalTimestamp 1700000000999 (Some (js ''abc''))) = js ''NaN''"
    unfolding ts by (rule str)
  have c3: "\<not> (\<exists>n. decimal_text n
      (number_to_string (finalTimestamp 1700000000999 (Some (js ''abc'')))))"
    unfolding c2 by (rule NaN_not_decimal)
  have c6: "\<not> (\<exists>n. decimal_text n (number_to_string (Num 1000000000000000000000)))"
    unfolding printed by (rule exponent_not_decimal)
  show ?thesis
    by (rule conjI [OF buf conjI [OF c2 conjI [OF c3 conjI [OF big conjI [OF printed c6]]]]])
qed

text \<open>
  Claim C5, as the code has it. For every call, the buffer is built without error; its
  bytes 0 to 3 are the four seed bytes; its bytes from 4 on are the UTF-8 encoding, with
  nothing before, between or after, of the resolved fields joined with \<open>|\<close> in the order
  device identifier, serial number, timestamp as \<open>Number::toString\<close> prints it, device
  model, os, \<open>Web\<close>, \<open>3\<close> and \<open>true\<close> or \<open>false\<close> for the development mode. The timestamp
  field is the decimal text of the timestamp when the resolved timestamp is an integer of
  magnitude at most \<open>2 ^ 53\<close>, and the text \<open>NaN\<close> when the resolved timestamp is \<open>NaN\<close>.
\<close>

theorem payload_layout:
  "\<exists>buf. plaintext e deviceIdentifier sn timestamp deviceModel os = Some buf \<and>
     take 4 buf = initialBytes (finalTimestamp (Date_now e) timestamp) \<and>
     drop 4 buf =
       TextEncoder_encode
         (join_with (js ''|'')
            [finalDeviceIdentifier (cookies e) deviceIdentifier, finalSn sn,
             number_to_string (finalTimestamp (Date_now e) timestamp),
             finalDeviceModel (cookies e) deviceModel, finalOs (cookies e) os,
             js ''Web'', js ''3'',
             if development (NODE_ENV e) then js ''true'' else js ''false'']) \<and>
     map unat (drop 4 buf) =
       concat (map utf8_bytes (scalar_values
         (join_with (js ''|'')
            [finalDeviceIdentifier (cookies e) deviceIdentifier, finalSn sn,
             number_to_string (finalTimestamp (Date_now e) timestamp),
             finalDeviceModel (cookies e) deviceModel, finalOs (cookies e) os,
             js ''Web'', js ''3'',
             if development (NODE_ENV e) then js ''true'' else js ''false'']))) \<and>
     (\<forall>n. finalTimestamp (Date_now e) timestamp = Num n \<and> safe_integer n \<longrightarrow>
        decimal_text n (number_to_string (finalTimestamp (Date_now e) timestamp))) \<and>
     (finalTimestamp (Date_now e) timestamp = NaN \<longrightarrow>
        number_to_string (finalTimestamp (Date_now e) timestamp) = js ''NaN'')"
proof -
  let ?ts = "finalTimestamp (Date_now e) timestamp"
  let ?fields = "join_with (js ''|'')
            [finalDeviceIdentifier (cookies e) deviceIdentifier, finalSn sn,
             number_to_string ?ts,
             finalDeviceModel (cookies e) deviceModel, finalOs (cookies e) os,
             js ''Web'', js ''3'',
             if development (NODE_ENV e) then js ''true'' else js ''false'']"
  let ?buf = "initialBytes ?ts @ TextEncoder_encode ?fields"
  have buf: "plaintext e deviceIdentifier sn timestamp deviceModel os = Some ?buf"
    by (simp only: plaintext_eq dataString_join)
  have t: "take 4 ?buf = initialBytes ?ts"
    by (simp add: length_initialBytes)
  have d: "drop 4 ?buf = TextEncoder_encode ?fields"
    by (simp add: length_initialBytes)
  have u: "map unat (drop 4 ?buf) = concat (map utf8_bytes (scalar_values ?fields))"
    unfolding d by (rule TextEncoder_encode_utf8)
  have dec: "\<forall>n. ?ts = Num n \<and> safe_integer n \<longrightarrow> decimal_text n (number_to_string ?ts)"
    by (simp add: decimal_text_number_to_string)
  have nan: "?ts = NaN \<longrightarrow> number_to_string ?ts = js ''NaN''"
    by (simp add: number_to_string_def)
  from buf t d u dec nan show ?thesis
    by (intro exI [of _ ?buf] conjI)
qed

theorem payload_layout_witness:
  "finalTimestamp 1700000000999 None = Num 1700000000 \<and> safe_integer 1700000000 \<and>
   decimal_text 1700000000 (number_to_string (Num 1700000000)) \<and>
   number_to_string (Num 1700000000) = js ''1700000000'' \<and>
   finalTimestamp 1700000000999 (Some (js ''abc'')) = NaN \<and>
   number_to_string (finalTimestamp 1700000000999 (Some (js ''abc''))) = js ''NaN''"
proof -
  let ?e = "\<lparr>cookies = None, NODE_ENV = None, Date_now = 1700000000999\<rparr>"
  have sel: "Date_now ?e = 1700000000999" by simp
  have ts: "finalTimestamp (Date_now ?e) None = Num 1700000000"
    by (simp add: finalTimestamp_def)
  have safe: "safe_integer 1700000000"
    by (simp add: safe_integer_def)
  obtain buf where
    dec: "\<forall>n. finalTimestamp (Date_now ?e) None = Num n \<and> safe_integer n \<longrightarrow>
        decimal_text n (number_to_string (finalTimestamp (Date_now ?e) None))"
    using payload_layout [of ?e None None None None None] by (elim exE conjE)
  have "decimal_text 1700000000 (number_to_string (finalTimestamp (Date_now ?e) None))"
    by (rule mp [OF spec [OF dec]]) (simp only: ts safe simp_thms)
  then have a: "decimal_text 1700000000 (number_to_string (Num 1700000000))"
    by (simp only: ts)
  have b: "number_to_string (Num 1700000000) = js ''1700000000''"
    by (simp add: print_defs digits.simps js_Nil js_Cons)
  have n: "finalTimestamp (Date_now ?e) (Some (js ''abc'')) = NaN"
    by (simp add: parse_defs js_Nil js_Cons)
  obtain buf' where
    nan: "finalTimestamp (Date_now ?e) (Some (js ''abc'')) = NaN \<longrightarrow>
        number_to_string (finalTimestamp (Date_now ?e) (Some (js ''abc''))) = js ''NaN''"
    using payload_layout [of ?e None None "Some (js ''abc'')" None None] by (elim exE conjE)
  have c: "number_to_string (finalTimestamp (Date_now ?e) (Some (js ''abc''))) = js ''NaN''"
    by (rule mp [OF nan n])
  from ts safe a b n c show ?thesis
    unfolding sel by (intro conjI)
qed

text \<open>
  Claim C8. Two calls whose resolved timestamps agree build buffers with the same first
  four bytes, whatever their other parameters, cookie data and development mode are:
  the seed is \<open>initialBytes\<close> of the resolved timestamp and of nothing else.
\<close>

theorem seed_depends_on_timestamp_only:
  assumes "finalTimestamp (Date_now e) timestamp = finalTimestamp (Date_now e') timestamp'"
  shows "\<exists>p p'. plaintext e deviceIdentifier sn timestamp deviceModel os = Some p \<and>
           plaintext e' deviceIdentifier' sn' timestamp' deviceModel' os' = Some p' \<and>
           take 4 p = take 4 p' \<and>
           take 4 p = initialBytes (finalTimestamp (Date_now e) timestamp)"
  using assms by (simp add: plaintext_eq length_initialBytes)

theorem seed_depends_on_timestamp_only_witness:
  "\<exists>p p'. plaintext \<lparr>cookies = None, NODE_ENV = None, Date_now = 0\<rparr>
             (Some (js ''a'')) (Some (js ''b'')) (Some (js ''0'')) (Some (js ''c''))
             (Some (js ''d'')) = Some p \<and>
          plaintext
             \<lparr>cookies = Some \<lparr>fingerprint = Some (js ''f''), clientDeviceModel = None,
                               clientOs = Some (js ''mac'')\<rparr>,
              NODE_ENV = Some (js ''development''), Date_now = 5\<rparr>
             None None (Some (js ''0'')) None None = Some p' \<and>
          take 4 p = take 4 p' \<and> p \<noteq> p'"
proof -
  let ?e = "\<lparr>cookies = None, NODE_ENV = None, Date_now = 0\<rparr>"
  let ?e' = "\<lparr>cookies = Some \<lparr>fingerprint = Some (js ''f''), clientDeviceModel = None,
                               clientOs = Some (js ''mac'')\<rparr>,
              NODE_ENV = Some (js ''development''), Date_now = 5\<rparr>"
  have ts: "finalTimestamp (Date_now ?e) (Some (js ''0'')) =
      finalTimestamp (Date_now ?e') (Some (js ''0''))"
    by (simp add: finalTimestamp_def)
  obtain p p' where
    p: "plaintext ?e (Some (js ''a'')) (Some (js ''b'')) (Some (js ''0'')) (Some (js ''c''))
          (Some (js ''d'')) = Some p"
    and p': "plaintext ?e' None None (Some (js ''0'')) None None = Some p'"
    and eq: "take 4 p = take 4 p'"
    using seed_depends_on_timestamp_only [OF ts] by blast
  have "length p \<noteq> length p'"
    using p p'
    apply (simp add: plaintext_small)
    apply (simp add: plaintext_eq length_initialBytes)
    apply (simp add: parse_defs js_Nil js_Cons)
    apply (auto simp add: dataString_def resolve_defs print_defs digits.simps
        js_Nil js_Cons utf8_1_def)
    done
  then have "p \<noteq> p'" by auto
  with p p' eq show ?thesis by blast
qed

subsection \<open>The token\<close>

lemma ucast_byte_back: "(ucast (ucast (b :: uint8) :: 16 word) :: uint8) = b"
  by (rule ucast_up_ucast_id) (simp add: is_up)

lemma ucast_byte_le: "(ucast (b :: uint8) :: 16 word) \<le> 0xFF"
proof -
  have "uint (ucast b :: 16 word) = uint b"
    by (rule uint_up_ucast) (simp add: is_up)
  moreover have "uint b < 2 ^ 8"
    using unsigned_less [of b, where 'a = int] by simp
  ultimately show ?thesis
    by (simp add: word_le_def)
qed

lemma base64_length: "length (base64 xs) = (length xs + 2) div 3 * 4"
proof (induction xs rule: base64.induct)
  case (4 a b c rest)
  have "(length (a # b # c # rest) + 2) div 3 = Suc ((length rest + 2) div 3)"
    by simp
  with 4 show ?case by simp
qed simp_all

lemma ceil_thirds: "nat \<lceil>real n / 3\<rceil> = (n + 2) div 3"
  by linarith

lemma btoa_binaryString: "btoa (binaryString c) = Inr (base64 c)"
  by (simp add: btoa_def binaryString_def list_all_iff ucast_byte_le ucast_byte_back comp_def)

lemma getRAuthToken_eq:
  "getRAuthToken e deviceIdentifier sn timestamp deviceModel os =
     Inr (base64 (xor_loop 4
       (initialBytes (finalTimestamp (Date_now e) timestamp) @
        TextEncoder_encode
          (dataString (finalDeviceIdentifier (cookies e) deviceIdentifier) (finalSn sn)
             (finalTimestamp (Date_now e) timestamp) (finalDeviceModel (cookies e) deviceModel)
             (finalOs (cookies e) os) (development (NODE_ENV e))))))"
  by (simp add: getRAuthToken_def plaintext_eq btoa_binaryString)

lemma length_alphabet: "length alphabet = 64"
  by (simp add: alphabet_def js_def)

lemma pad_not_in_alphabet: "0x3D \<notin> set alphabet"
  by (simp add: alphabet_def js_Nil js_Cons)

lemma sextet_not_pad: "sextet n \<noteq> 0x3D"
proof -
  have "unat (n AND 0x3F) \<le> unat (0x3F :: uint8)"
    by (rule word_and_le1 [THEN word_le_nat_alt [THEN iffD1]])
  then have "unat (n AND 0x3F) < length alphabet"
    by (simp add: length_alphabet)
  then have "sextet n \<in> set alphabet"
    unfolding sextet_def by (rule nth_mem)
  with pad_not_in_alphabet show ?thesis by metis
qed

lemma pad_not_sextet: "0x3D \<noteq> sextet n"
  using sextet_not_pad [of n] by metis

lemma base64_padding:
  "\<exists>body. base64 xs = body @ replicate ((3 - length xs mod 3) mod 3) 0x3D \<and> 0x3D \<notin> set body"
proof (induction xs rule: base64.induct)
  case 1
  show ?case by simp
next
  case (2 a)
  let ?body = "[sextet (drop_bit 2 a), sextet (push_bit 4 (a AND 3))]"
  have "base64 [a] = ?body @ replicate ((3 - length [a] mod 3) mod 3) 0x3D"
    by (simp add: numeral_2_eq_2)
  moreover have "0x3D \<notin> set ?body"
    by (simp add: pad_not_sextet)
  ultimately show ?case by (rule_tac x = ?body in exI) (rule conjI)
next
  case (3 a b)
  let ?body = "[sextet (drop_bit 2 a), sextet (push_bit 4 (a AND 3) OR drop_bit 4 b),
       sextet (push_bit 2 (b AND 0xF))]"
  have "base64 [a, b] = ?body @ replicate ((3 - length [a, b] mod 3) mod 3) 0x3D"
    by simp
  moreover have "0x3D \<notin> set ?body"
    by (simp add: pad_not_sextet)
  ultimately show ?case by (rule_tac x = ?body in exI) (rule conjI)
next
  case (4 a b c rest)
  let ?four = "[sextet (drop_bit 2 a), sextet (push_bit 4 (a AND 3) OR drop_bit 4 b),
      sextet (push_bit 2 (b AND 0xF) OR drop_bit 6 c), sextet (c AND 0x3F)]"
  from 4 obtain body where
    body: "base64 rest = body @ replicate ((3 - length rest mod 3) mod 3) 0x3D"
    and clean: "0x3D \<notin> set body"
    by (elim exE conjE)
  have pad: "(3 - length (a # b # c # rest) mod 3) mod 3 = (3 - length rest mod 3) mod 3"
    by simp
  have "base64 (a # b # c # rest) =
      (?four @ body) @ replicate ((3 - length (a # b # c # rest) mod 3) mod 3) 0x3D"
    unfolding pad using body by simp
  moreover have "0x3D \<notin> set (?four @ body)"
    using clean by (simp add: pad_not_sextet)
  ultimately show ?case by (rule_tac x = "?four @ body" in exI) (rule conjI)
qed

text \<open>
  Claim C9. Every call returns a token, and the token has
  \<open>ceil((4 + n) / 3) * 4\<close> characters, \<open>n\<close> being the number of bytes of the UTF-8
  field string; it ends in as many \<open>=\<close> as Base64 pads for \<open>4 + n\<close> bytes (none, one
  or two), and has no \<open>=\<close> before them.
\<close>

theorem token_length:
  "\<exists>tok body.
     getRAuthToken e deviceIdentifier sn timestamp deviceModel os = Inr tok \<and>
     length tok =
       nat \<lceil>real (4 + length (TextEncoder_encode
          (dataString (finalDeviceIdentifier (cookies e) deviceIdentifier) (finalSn sn)
             (finalTimestamp (Date_now e) timestamp) (finalDeviceModel (cookies e) deviceModel)
             (finalOs (cookies e) os) (development (NODE_ENV e))))) / 3\<rceil> * 4 \<and>
     tok = body @ replicate ((3 - (4 + length (TextEncoder_encode
          (dataString (finalDeviceIdentifier (cookies e) deviceIdentifier) (finalSn sn)
             (finalTimestamp (Date_now e) timestamp) (finalDeviceModel (cookies e) deviceModel)
             (finalOs (cookies e) os) (development (NODE_ENV e))))) mod 3) mod 3) 0x3D \<and>
     0x3D \<notin> set body"
proof -
  let ?data = "TextEncoder_encode
          (dataString (finalDeviceIdentifier (cookies e) deviceIdentifier) (finalSn sn)
             (finalTimestamp (Date_now e) timestamp) (finalDeviceModel (cookies e) deviceModel)
             (finalOs (cookies e) os) (development (NODE_ENV e)))"
  let ?c = "xor_loop 4 (initialBytes (finalTimestamp (Date_now e) timestamp) @ ?data)"
  have tok: "getRAuthToken e deviceIdentifier sn timestamp deviceModel os = Inr (base64 ?c)"
    by (rule getRAuthToken_eq)
  have len: "length ?c = 4 + length ?data"
    by (simp add: xor_loop_length length_initialBytes)
  have "length (base64 ?c) = nat \<lceil>real (4 + length ?data) / 3\<rceil> * 4"
    by (simp only: base64_length len ceil_thirds)
  moreover obtain body where
    "base64 ?c = body @ replicate ((3 - (4 + length ?data) mod 3) mod 3) 0x3D" "0x3D \<notin> set body"
    using base64_padding [of ?c] unfolding len by blast
  ultimately show ?thesis using tok
    by (rule_tac x = "base64 ?c" in exI, rule_tac x = body in exI) simp
qed

text \<open>
  Claim C7. With the five parameters fixed, two calls in environments that agree on the
  cookie data, on the development mode and on the wall-clock second return the same
  token, and they do return one.
\<close>

theorem token_deterministic:
  assumes "cookies e = cookies e'"
    and "development (NODE_ENV e) = development (NODE_ENV e')"
    and "Date_now e div 1000 = Date_now e' div 1000"
  shows "getRAuthToken e deviceIdentifier sn timestamp deviceModel os =
           getRAuthToken e' deviceIdentifier sn timestamp deviceModel os \<and>
         (\<exists>tok. getRAuthToken e deviceIdentifier sn timestamp deviceModel os = Inr tok)"
proof -
  have "finalTimestamp (Date_now e) timestamp = finalTimestamp (Date_now e') timestamp"
    using assms(3) by (simp add: finalTimestamp_def split: option.splits)
  with assms(1,2) show ?thesis
    by (simp add: getRAuthToken_eq)
qed


theorem token_deterministic_witness:
  "getRAuthToken \<lparr>cookies = None, NODE_ENV = None, Date_now = 1700000000000\<rparr>
     None None None None None =
   getRAuthToken \<lparr>cookies = None, NODE_ENV = Some (js ''production''), Date_now = 1700000000999\<rparr>
     None None None None None"
  using token_deterministic
    [of "\<lparr>cookies = None, NODE_ENV = None, Date_now = 1700000000000\<rparr>"
        "\<lparr>cookies = None, NODE_ENV = Some (js ''production''), Date_now = 1700000000999\<rparr>"
        None None None None None]
  by (simp add: development_def js_def)

subsection \<open>The device identifier\<close>

lemma ascii_prefix: "list_all (\<lambda>c. c < 0x80) (js ''web-fingerprint-'')"
  by (simp add: js_Nil js_Cons)

text \<open>
  Claim C10. The device-identifier field always begins with \<open>web-fingerprint-\<close>, and
  so do the payload bytes after the seed. When the cookie data holds a fingerprint (a
  non-empty string, which is what the code's test \<open>fingerprint ? \<dots>\<close> accepts), the field
  is the prefix followed by the fingerprint, whatever \<open>deviceIdentifier\<close> the caller passed.
  Otherwise it is the prefix followed by the caller's \<open>deviceIdentifier\<close>, or by
  \<open>fb9cd3a645fe5jim\<close> when that is absent or empty.
\<close>

theorem device_identifier_prefix:
  "(\<exists>rest. finalDeviceIdentifier c deviceIdentifier = js ''web-fingerprint-'' @ rest) \<and>
   (\<forall>f. fingerprint (destructure c) = Some f \<and> f \<noteq> [] \<longrightarrow>
      (\<forall>d. finalDeviceIdentifier c d = js ''web-fingerprint-'' @ f)) \<and>
   (\<not> truthy (fingerprint (destructure c)) \<longrightarrow>
      (\<forall>x. deviceIdentifier = Some x \<and> x \<noteq> [] \<longrightarrow>
         finalDeviceIdentifier c deviceIdentifier = js ''web-fingerprint-'' @ x) \<and>
      (deviceIdentifier = None \<or> deviceIdentifier = Some [] \<longrightarrow>
         finalDeviceIdentifier c deviceIdentifier = js ''web-fingerprint-'' @ js ''fb9cd3a645fe5jim'')) \<and>
   (\<exists>buf rest. plaintext e deviceIdentifier sn timestamp deviceModel os = Some buf \<and>
      drop 4 buf = map of_char ''web-fingerprint-'' @ rest)"
proof -
  have 1: "\<exists>rest. finalDeviceIdentifier c deviceIdentifier = js ''web-fingerprint-'' @ rest"
    by (simp add: finalDeviceIdentifier_def)
  have 2: "\<forall>f. fingerprint (destructure c) = Some f \<and> f \<noteq> [] \<longrightarrow>
      (\<forall>d. finalDeviceIdentifier c d = js ''web-fingerprint-'' @ f)"
    by (simp add: finalDeviceIdentifier_def truthy_def template_def)
  have 3: "\<not> truthy (fingerprint (destructure c)) \<longrightarrow>
      (\<forall>x. deviceIdentifier = Some x \<and> x \<noteq> [] \<longrightarrow>
         finalDeviceIdentifier c deviceIdentifier = js ''web-fingerprint-'' @ x) \<and>
      (deviceIdentifier = None \<or> deviceIdentifier = Some [] \<longrightarrow>
         finalDeviceIdentifier c deviceIdentifier = js ''web-fingerprint-'' @ js ''fb9cd3a645fe5jim'')"
    by (auto simp add: finalDeviceIdentifier_def truthy_def template_def or_else_def js_Nil js_Cons)
  have "\<exists>rest. drop 4 (initialBytes (finalTimestamp (Date_now e) timestamp) @
       TextEncoder_encode
          (dataString (finalDeviceIdentifier (cookies e) deviceIdentifier) (finalSn sn)
             (finalTimestamp (Date_now e) timestamp) (finalDeviceModel (cookies e) deviceModel)
             (finalOs (cookies e) os) (development (NODE_ENV e)))) = map of_char ''web-fingerprint-'' @ rest"
  proof -
    obtain r where r: "finalDeviceIdentifier (cookies e) deviceIdentifier = js ''web-fingerprint-'' @ r"
      by (auto simp add: finalDeviceIdentifier_def)
    have u: "map ucast (js ''web-fingerprint-'') = (map of_char ''web-fingerprint-'' :: uint8 list)"
      by (simp add: js_Nil js_Cons)
    show ?thesis
      unfolding dataString_def r append_assoc
      by (simp only: TextEncoder_encode_ascii_append [OF ascii_prefix] u)
         (simp add: length_initialBytes)
  qed
  then have 4: "\<exists>buf rest. plaintext e deviceIdentifier sn timestamp deviceModel os = Some buf \<and>
      drop 4 buf = map of_char ''web-fingerprint-'' @ rest"
    by (simp add: plaintext_eq)
  from 1 2 3 4 show ?thesis by (intro conjI)
qed


theorem device_identifier_prefix_witness:
  "finalDeviceIdentifier
     (Some \<lparr>fingerprint = Some (js ''abc''), clientDeviceModel = None, clientOs = None\<rparr>)
     (Some (js ''dev'')) = js ''web-fingerprint-abc'' \<and>
   finalDeviceIdentifier None (Some (js ''dev'')) = js ''web-fingerprint-dev'' \<and>
   finalDeviceIdentifier None None = js ''web-fingerprint-fb9cd3a645fe5jim''"
proof -
  let ?c = "Some \<lparr>fingerprint = Some (js ''abc''), clientDeviceModel = None, clientOs = None\<rparr>"
  have "finalDeviceIdentifier ?c (Some (js ''dev'')) = js ''web-fingerprint-'' @ js ''abc''"
    using device_identifier_prefix [of ?c None]
    by (simp add: destructure_def js_Nil js_Cons)
  moreover have "finalDeviceIdentifier None (Some (js ''dev'')) = js ''web-fingerprint-'' @ js ''dev''"
    using device_identifier_prefix [of None "Some (js ''dev'')"]
    by (simp add: destructure_def truthy_def js_Nil js_Cons)
  moreover have "finalDeviceIdentifier None None = js ''web-fingerprint-'' @ js ''fb9cd3a645fe5jim''"
    using device_identifier_prefix [of None None]
    by (simp add: destructure_def truthy_def)
  ultimately show ?thesis
    by (simp add: js_def)
qed

subsection \<open>The timestamp\<close>

lemma initialBytes_1700000000: "initialBytes (Num 1700000000) = [28, 6, 88, 66]"
  by (simp add: initialBytes_def random_def random_mix_def random_muladd_def ToInt32_def
      b0_def b1_def b2_def b3_def)

lemma parseInt10_abc: "parseInt10 (js ''abc'') = NaN"
  by (simp add: parse_defs js_Nil js_Cons)

text \<open>
  The timestamp \<open>"abc"\<close> does not parse. The function does not put the wall-clock second
  in its place: the resolved timestamp is \<open>NaN\<close>, the seed is the seed of \<open>NaN\<close> and not
  that of the wall-clock second, and the field string carries the text \<open>NaN\<close>.
\<close>

theorem unparsable_timestamp_counterexample:
  "finalTimestamp 1700000000999 (Some (js ''abc'')) \<noteq> Num (1700000000999 div 1000) \<and>
   initialBytes (finalTimestamp 1700000000999 (Some (js ''abc''))) \<noteq>
     initialBytes (Num (1700000000999 div 1000)) \<and>
   plaintext \<lparr>cookies = None, NODE_ENV = None, Date_now = 1700000000999\<rparr>
     (Some (js ''a'')) (Some (js ''b'')) (Some (js ''abc'')) (Some (js ''c'')) (Some (js ''d'')) =
   Some ([0, 0, 19, 19] @ TextEncoder_encode (js ''web-fingerprint-a|b|NaN|c|d|Web|3|false''))"
proof -
  have ts: "finalTimestamp 1700000000999 (Some (js ''abc'')) = NaN"
    by (simp add: finalTimestamp_def parseInt10_abc) (simp add: js_def)
  have "plaintext \<lparr>cookies = None, NODE_ENV = None, Date_now = 1700000000999\<rparr>
     (Some (js ''a'')) (Some (js ''b'')) (Some (js ''abc'')) (Some (js ''c'')) (Some (js ''d'')) =
   Some ([0, 0, 19, 19] @ TextEncoder_encode (js ''web-fingerprint-a|b|NaN|c|d|Web|3|false''))"
    apply (simp add: plaintext_eq ts initialBytes_NaN)
    apply (simp add: dataString_def resolve_defs print_defs js_Nil js_Cons utf8_1_def)
    done
  then show ?thesis
    by (simp add: ts initialBytes_NaN initialBytes_1700000000)
qed

text \<open>
  Claim C3, as the code has it. A timestamp that is absent or the empty string is replaced
  by the wall-clock second count. A non-empty timestamp string goes to \<open>parseInt\<close> with
  radix 10 and the result is used as it is; when the string does not parse the result is
  \<open>NaN\<close>, the seed is then \<open>[0, 0, 19, 19]\<close> (the seed of timestamp 0) and the timestamp
  field is the text \<open>NaN\<close>. In every case the function returns a token: no error is
  raised to the caller.
\<close>

theorem unparsable_timestamp:
  "(timestamp = None \<or> timestamp = Some [] \<longrightarrow>
      finalTimestamp (Date_now e) timestamp = Num (Date_now e div 1000)) \<and>
   (\<forall>s. timestamp = Some s \<and> s \<noteq> [] \<longrightarrow>
      finalTimestamp (Date_now e) timestamp = parseInt10 s \<and>
      (parseInt10 s = NaN \<longrightarrow>
         initialBytes (finalTimestamp (Date_now e) timestamp) = [0, 0, 19, 19] \<and>
         number_to_string (finalTimestamp (Date_now e) timestamp) = js ''NaN'')) \<and>
   (\<exists>tok. getRAuthToken e deviceIdentifier sn timestamp deviceModel os = Inr tok)"
  by (auto simp add: finalTimestamp_def getRAuthToken_eq initialBytes_NaN number_to_string_def)

theorem unparsable_timestamp_witness:
  "finalTimestamp 1700000000999 None = Num 1700000000 \<and>
   finalTimestamp 1700000000999 (Some (js ''12ab'')) = Num 12 \<and>
   finalTimestamp 1700000000999 (Some (js ''abc'')) = NaN \<and>
   initialBytes (finalTimestamp 1700000000999 (Some (js ''abc''))) = [0, 0, 19, 19] \<and>
   number_to_string (finalTimestamp 1700000000999 (Some (js ''abc''))) = js ''NaN''"
proof -
  let ?e = "\<lparr>cookies = None, NODE_ENV = None, Date_now = 1700000000999\<rparr>"
  note absent = unparsable_timestamp [of None ?e None None None None, THEN conjunct1]
  note digits = unparsable_timestamp [of "Some (js ''12ab'')" ?e None None None None,
      THEN conjunct2, THEN conjunct1, THEN spec, of "js ''12ab''"]
  note letters = unparsable_timestamp [of "Some (js ''abc'')" ?e None None None None,
      THEN conjunct2, THEN conjunct1, THEN spec, of "js ''abc''"]
  have a: "finalTimestamp (Date_now ?e) None = Num (Date_now ?e div 1000)"
    by (rule mp [OF absent]) simp
  have c: "finalTimestamp (Date_now ?e) (Some (js ''12ab'')) = parseInt10 (js ''12ab'')"
    by (rule conjunct1 [OF mp [OF digits]]) (simp add: js_def)
  have p: "parseInt10 (js ''12ab'') = Num 12"
    by (simp add: parse_defs js_Nil js_Cons)
  have l: "finalTimestamp (Date_now ?e) (Some (js ''abc'')) = parseInt10 (js ''abc'') \<and>
      (parseInt10 (js ''abc'') = NaN \<longrightarrow>
        initialBytes (finalTimestamp (Date_now ?e) (Some (js ''abc''))) = [0, 0, 19, 19] \<and>
        number_to_string (finalTimestamp (Date_now ?e) (Some (js ''abc''))) = js ''NaN'')"
    by (rule mp [OF letters]) (simp add: js_def)
  have q: "parseInt10 (js ''abc'') = NaN"
    by (rule parseInt10_abc)
  have d: "initialBytes (finalTimestamp (Date_now ?e) (Some (js ''abc''))) = [0, 0, 19, 19] \<and>
        number_to_string (finalTimestamp (Date_now ?e) (Some (js ''abc''))) = js ''NaN''"
    by (rule mp [OF conjunct2 [OF l] q])
  have n: "finalTimestamp (Date_now ?e) (Some (js ''abc'')) = NaN"
    using conjunct1 [OF l] q by (rule trans)
  have sel: "Date_now ?e = 1700000000999" by simp
  from a c p d n show ?thesis
    unfolding sel by simp
qed

subsection \<open>The scenario of the specification\<close>

lemma parseInt10_0: "parseInt10 (js ''0'') = Num 0"
  by (simp add: parse_defs js_Nil js_Cons)

text \<open>
  The scenario's call with any \<open>deviceIdentifier\<close> literal: timestamp \<open>"0"\<close>, no cookie
  data, not in development mode.
\<close>

lemma scenario_fields:
  assumes "cookies e = None" and "\<not> development (NODE_ENV e)"
  shows "plaintext e (Some (js dev)) (Some (js ''sn-1'')) (Some (js ''0'')) (Some (js ''model-1''))
           (Some (js ''linux'')) =
         Some ([0, 0, 19, 19] @
           TextEncoder_encode (js (''web-fingerprint-'' @ (if dev = [] then ''fb9cd3a645fe5jim'' else dev) @ ''|sn-1|0|model-1|linux|Web|3|false'')))"
proof -
  have ts: "finalTimestamp (Date_now e) (Some (js ''0'')) = Num 0"
    by (simp add: finalTimestamp_def parseInt10_0) (simp add: js_def)
  show ?thesis
    unfolding plaintext_eq ts initialBytes_Num_0
    using assms
    by (simp add: dataString_def resolve_defs print_defs digits.simps js_def)
qed

text \<open>
  Called with \<open>deviceIdentifier = "web-fingerprint-test"\<close>, the function does not build the
  buffer of the scenario: it puts its own \<open>web-fingerprint-\<close> before the parameter.
\<close>

theorem scenario_plaintext_counterexample:
  "plaintext \<lparr>cookies = None, NODE_ENV = Some (js ''production''), Date_now = 1700000000999\<rparr>
     (Some (js ''web-fingerprint-test'')) (Some (js ''sn-1'')) (Some (js ''0''))
     (Some (js ''model-1'')) (Some (js ''linux'')) \<noteq>
   Some ([0, 0, 19, 19] @
     TextEncoder_encode (js ''web-fingerprint-test|sn-1|0|model-1|linux|Web|3|false''))"
proof -
  let ?e = "\<lparr>cookies = None, NODE_ENV = Some (js ''production''), Date_now = 1700000000999\<rparr>"
  have "plaintext ?e (Some (js ''web-fingerprint-test'')) (Some (js ''sn-1'')) (Some (js ''0''))
     (Some (js ''model-1'')) (Some (js ''linux'')) =
     Some ([0, 0, 19, 19] @ TextEncoder_encode
       (js ''web-fingerprint-web-fingerprint-test|sn-1|0|model-1|linux|Web|3|false''))"
    using scenario_fields [of ?e "''web-fingerprint-test''"]
    by (simp add: development_def js_def)
  then show ?thesis
    by (simp add: js_Nil js_Cons utf8_1_def)
qed

text \<open>
  Claim C4, as the code has it. For the timestamp \<open>"0"\<close>, the serial number \<open>sn-1\<close>, the
  device model \<open>model-1\<close>, the os \<open>linux\<close>, no cookie data and no development mode, the
  seed is \<open>[0, 0, 19, 19]\<close>; the parameter \<open>deviceIdentifier = "web-fingerprint-test"\<close>
  gives the buffer of the seed followed by the UTF-8 bytes of
  \<open>web-fingerprint-web-fingerprint-test|sn-1|0|model-1|linux|Web|3|false\<close>, and the
  parameter \<open>deviceIdentifier = "test"\<close> gives the seed followed by the UTF-8 bytes of
  \<open>web-fingerprint-test|sn-1|0|model-1|linux|Web|3|false\<close>, one byte for each character.
\<close>

theorem scenario_plaintext:
  assumes "cookies e = None" and "\<not> development (NODE_ENV e)"
  shows "plaintext e (Some (js ''web-fingerprint-test'')) (Some (js ''sn-1'')) (Some (js ''0''))
           (Some (js ''model-1'')) (Some (js ''linux'')) =
         Some ([0, 0, 19, 19] @ TextEncoder_encode
           (js ''web-fingerprint-web-fingerprint-test|sn-1|0|model-1|linux|Web|3|false'')) \<and>
         plaintext e (Some (js ''test'')) (Some (js ''sn-1'')) (Some (js ''0''))
           (Some (js ''model-1'')) (Some (js ''linux'')) =
         Some ([0, 0, 19, 19] @ TextEncoder_encode
           (js ''web-fingerprint-test|sn-1|0|model-1|linux|Web|3|false'')) \<and>
         initialBytes (finalTimestamp (Date_now e) (Some (js ''0''))) = [0, 0, 19, 19] \<and>
         TextEncoder_encode (js ''web-fingerprint-test|sn-1|0|model-1|linux|Web|3|false'') =
           map of_char ''web-fingerprint-test|sn-1|0|model-1|linux|Web|3|false''"
proof -
  have ts: "finalTimestamp (Date_now e) (Some (js ''0'')) = Num 0"
    by (simp add: finalTimestamp_def parseInt10_0) (simp add: js_def)
  have "TextEncoder_encode (js ''web-fingerprint-test|sn-1|0|model-1|linux|Web|3|false'') =
           map of_char ''web-fingerprint-test|sn-1|0|model-1|linux|Web|3|false''"
    by (simp add: js_Nil js_Cons utf8_1_def)
  then show ?thesis
    using scenario_fields [OF assms, of "''web-fingerprint-test''"]
      scenario_fields [OF assms, of "''test''"]
    by (simp add: ts initialBytes_Num_0)
qed

theorem scenario_plaintext_witness:
  "plaintext \<lparr>cookies = None, NODE_ENV = Some (js ''production''), Date_now = 1700000000999\<rparr>
     (Some (js ''test'')) (Some (js ''sn-1'')) (Some (js ''0''))
     (Some (js ''model-1'')) (Some (js ''linux'')) =
   Some ([0, 0, 19, 19] @ map of_char ''web-fingerprint-test|sn-1|0|model-1|linux|Web|3|false'')"
  using scenario_plaintext
    [of "\<lparr>cookies = None, NODE_ENV = Some (js ''production''), Date_now = 1700000000999\<rparr>"]
  by (simp add: development_def js_def)

end
